theory Spec2Isabelle
  imports Main
begin

section \<open>Python and pandas values\<close>

text \<open>
  The program is \<^verbatim>\<open>src/app.py\<close>: a Streamlit page that loads two reports with pandas,
  cleans each with \<^verbatim>\<open>process_file\<close> and offers one workbook with two sheets.

  A Python string is a \<^typ>\<open>string\<close>; a character stands for a code point below 256.
  \<^verbatim>\<open>str.strip()\<close> without argument removes leading and trailing whitespace; below 256
  the whitespace code points are 9 to 13, 28 to 32, 133 and 160.
\<close>

definition py_isspace :: "char \<Rightarrow> bool" where
  "py_isspace c = ((of_char c :: nat) \<in> set [9, 10, 11, 12, 13, 28, 29, 30, 31, 32, 133, 160])"

definition py_strip :: "string \<Rightarrow> string" where
  "py_strip s = rev (dropWhile py_isspace (rev (dropWhile py_isspace s)))"

definition endswith :: "string \<Rightarrow> string \<Rightarrow> bool" where
  "endswith s t = (length t \<le> length s \<and> drop (length s - length t) s = t)"

text \<open>\<^verbatim>\<open>str(n)\<close> for a Python integer: decimal digits, with a minus sign when negative.\<close>

fun str_nat :: "nat \<Rightarrow> string" where
  "str_nat n =
     (if n < 10 then [''0123456789'' ! n]
      else str_nat (n div 10) @ [''0123456789'' ! (n mod 10)])"

declare str_nat.simps [simp del]

definition str_int :: "int \<Rightarrow> string" where
  "str_int i = (if i < 0 then ''-'' @ str_nat (nat (- i)) else str_nat (nat i))"

text \<open>
  A cell of a DataFrame. \<open>NaN\<close>, \<open>NoneCell\<close> and \<open>NaT\<close> are the three values pandas
  counts as missing (\<^verbatim>\<open>isna\<close>); \<open>OtherCell\<close> is any other Python value (a float, a
  timestamp), whose \<^verbatim>\<open>str\<close> is a parameter \<open>repr\<close> of the model.
\<close>

datatype 'v cell = NaN | NoneCell | NaT | IntCell int | StrCell string | OtherCell 'v

fun isna :: "'v cell \<Rightarrow> bool" where
  "isna NaN = True"
| "isna NoneCell = True"
| "isna NaT = True"
| "isna _ = False"

fun py_str :: "('v \<Rightarrow> string) \<Rightarrow> 'v cell \<Rightarrow> string" where
  "py_str repr NaN = ''nan''"
| "py_str repr NoneCell = ''None''"
| "py_str repr NaT = ''NaT''"
| "py_str repr (IntCell i) = str_int i"
| "py_str repr (StrCell s) = s"
| "py_str repr (OtherCell v) = repr v"

text \<open>
  A column label is a Python value too. A header cell of text gives a string; a header cell
  holding a whole number, as a spreadsheet may have, gives an integer; \<open>NaNLabel\<close> is the
  missing label that \<^verbatim>\<open>.str\<close> methods put in the place of a value that is no string. Labels
  of other kinds (floats, dates) are not modelled.
\<close>

datatype label = StrLabel string | IntLabel int | NaNLabel

fun is_str :: "label \<Rightarrow> bool" where
  "is_str (StrLabel s) = True"
| "is_str _ = False"

fun label_str :: "label \<Rightarrow> string" where
  "label_str (StrLabel s) = s"
| "label_str (IntLabel i) = str_int i"
| "label_str NaNLabel = ''nan''"

text \<open>
  The column index of a DataFrame has a dtype: \<open>ObjectDtype\<close> for an index of Python
  objects, \<open>NumericDtype\<close> for an index of numbers (an integer or float index, and the
  \<^verbatim>\<open>RangeIndex\<close> that pandas 2 gives a table read from a sheet with no header row left).
  An index built from a list of labels is numeric when the list is not empty and holds no
  string.
\<close>

datatype dtype = ObjectDtype | NumericDtype

definition index_dtype :: "label list \<Rightarrow> dtype" where
  "index_dtype labels = (if labels \<noteq> [] \<and> \<not> list_ex is_str labels then NumericDtype else ObjectDtype)"

text \<open>
  A DataFrame: the column labels in order (pandas allows a label to occur twice), the dtype
  of the column index, and the rows in order, each with its index label and its cells. The
  index labels are naturals. A DataFrame is well formed (\<open>wf_frame\<close>) when every row has
  one cell per column. The operations are those of pandas 2 (and, but for the column index
  of an empty table, of pandas 1), where \<^verbatim>\<open>astype(str)\<close> applies \<^verbatim>\<open>str\<close> to every value, a
  missing one included.
\<close>

record 'v dataframe =
  columns :: "label list"
  columns_dtype :: dtype
  rows :: "(nat \<times> 'v cell list) list"

definition wf_frame :: "'v dataframe \<Rightarrow> bool" where
  "wf_frame df = list_all (\<lambda>r. length (snd r) = length (columns df)) (rows df)"

datatype exn = KeyError label | ValueError string | AttributeError string

text \<open>
  \<^verbatim>\<open>df.columns.str\<close>: pandas accepts the accessor when the inferred type of the values is
  string, mixed or empty, that is, for an index of objects that holds a string or holds
  nothing but missing labels; otherwise (a numeric index, an index of integers) it raises
  AttributeError.
\<close>

definition str_accepts :: "'v dataframe \<Rightarrow> bool" where
  "str_accepts df =
     (columns_dtype df = ObjectDtype
      \<and> (list_ex is_str (columns df) \<or> list_all (\<lambda>l. l = NaNLabel) (columns df)))"

text \<open>\<^verbatim>\<open>.str.strip()\<close>: every string stripped, a missing label for every other value.\<close>

fun strip_label :: "label \<Rightarrow> label" where
  "strip_label (StrLabel s) = StrLabel (py_strip s)"
| "strip_label _ = NaNLabel"

definition str_strip :: "label list \<Rightarrow> label list" where
  "str_strip labels = map strip_label labels"

text \<open>The cells of a row that stand under the label \<open>k\<close>, left to right.\<close>

definition cells_under :: "label list \<Rightarrow> label \<Rightarrow> 'v cell list \<Rightarrow> 'v cell list" where
  "cells_under labels k r = map snd (filter (\<lambda>lc. fst lc = k) (zip labels r))"

text \<open>
  \<^verbatim>\<open>df[[k1, ..., kn]]\<close>: for each key in turn, every column carrying that label; KeyError
  when a key labels no column. The column index keeps its dtype.
\<close>

definition select_labels :: "label list \<Rightarrow> label list \<Rightarrow> label list" where
  "select_labels labels keys = concat (map (\<lambda>k. filter (\<lambda>l. l = k) labels) keys)"

definition select_cells :: "label list \<Rightarrow> label list \<Rightarrow> 'v cell list \<Rightarrow> 'v cell list" where
  "select_cells labels keys r = concat (map (\<lambda>k. cells_under labels k r) keys)"

definition getitem_list :: "'v dataframe \<Rightarrow> label list \<Rightarrow> exn + 'v dataframe" where
  "getitem_list df keys =
     (case filter (\<lambda>k. k \<notin> set (columns df)) keys of
        k # _ \<Rightarrow> Inl (KeyError k)
      | [] \<Rightarrow> Inr \<lparr>columns = select_labels (columns df) keys,
                   columns_dtype = columns_dtype df,
                   rows = map (\<lambda>(i, r). (i, select_cells (columns df) keys r)) (rows df)\<rparr>)"

text \<open>
  \<^verbatim>\<open>df.dropna(subset=[...])\<close>: a row stays when no cell under a label of the subset is
  missing; KeyError when a label of the subset labels no column.
\<close>

definition row_complete :: "label list \<Rightarrow> label list \<Rightarrow> 'v cell list \<Rightarrow> bool" where
  "row_complete labels ks r =
     list_all (\<lambda>k. list_all (\<lambda>c. \<not> isna c) (cells_under labels k r)) ks"

definition dropna :: "'v dataframe \<Rightarrow> label list \<Rightarrow> exn + 'v dataframe" where
  "dropna df ks =
     (case filter (\<lambda>k. k \<notin> set (columns df)) ks of
        k # _ \<Rightarrow> Inl (KeyError k)
      | [] \<Rightarrow> Inr (df\<lparr>rows := filter (\<lambda>(i, r). row_complete (columns df) ks r) (rows df)\<rparr>))"

text \<open>
  \<^verbatim>\<open>df.rename(columns=d)\<close>: a label that is a key of the dict is replaced; the column index
  is built anew from the list of labels.
\<close>

definition rename_label :: "(label \<rightharpoonup> label) \<Rightarrow> label \<Rightarrow> label" where
  "rename_label d l = (case d l of None \<Rightarrow> l | Some l' \<Rightarrow> l')"

definition rename :: "'v dataframe \<Rightarrow> (label \<rightharpoonup> label) \<Rightarrow> 'v dataframe" where
  "rename df d =
     df\<lparr>columns := map (rename_label d) (columns df),
        columns_dtype := index_dtype (map (rename_label d) (columns df))\<rparr>"

text \<open>
  \<^verbatim>\<open>df[k] = df[k].astype(str) + t\<close>: reading \<^verbatim>\<open>df[k]\<close> raises KeyError when no column
  is labelled \<open>k\<close>; otherwise every cell under \<open>k\<close> becomes the string of its value followed
  by \<open>t\<close>, and the other cells stay.
\<close>

definition str_plus :: "('v \<Rightarrow> string) \<Rightarrow> label \<Rightarrow> string \<Rightarrow> label \<Rightarrow> 'v cell \<Rightarrow> 'v cell" where
  "str_plus repr k t l c = (if l = k then StrCell (py_str repr c @ t) else c)"

definition astype_str_plus ::
  "('v \<Rightarrow> string) \<Rightarrow> 'v dataframe \<Rightarrow> label \<Rightarrow> string \<Rightarrow> exn + 'v dataframe" where
  "astype_str_plus repr df k t =
     (if k \<notin> set (columns df) then Inl (KeyError k)
      else Inr (df\<lparr>rows := map (\<lambda>(i, r). (i, map2 (str_plus repr k t) (columns df) r)) (rows df)\<rparr>))"

text \<open>
  \<^verbatim>\<open>df.insert(0, label, values)\<close> with a sequence of values: ValueError when the label is
  already a column or when the number of values is not the number of rows.
\<close>

definition insert0 :: "'v dataframe \<Rightarrow> label \<Rightarrow> 'v cell list \<Rightarrow> exn + 'v dataframe" where
  "insert0 df l vals =
     (if l \<in> set (columns df)
        then Inl (ValueError (''cannot insert '' @ label_str l @ '', already exists''))
      else if length vals \<noteq> length (rows df)
        then Inl (ValueError ''Length of values does not match length of index'')
      else Inr \<lparr>columns = l # columns df,
               columns_dtype = index_dtype (l # columns df),
               rows = map2 (\<lambda>v (i, r). (i, v # r)) vals (rows df)\<rparr>)"

text \<open>\<^verbatim>\<open>range(1, n + 1)\<close> as a column of integers.\<close>

definition range1 :: "nat \<Rightarrow> 'v cell list" where
  "range1 n = map (\<lambda>k. IntCell (int k)) [1 ..< n + 1]"

section \<open>Objects and the page\<close>

text \<open>
  DataFrames are mutable objects. The store maps a reference to the DataFrame it holds;
  \<open>next_ref\<close> is the first reference not yet in use: a new object gets it, and an
  assignment in place changes the DataFrame at one reference only. What the page shows is
  the list \<open>ui\<close>, oldest first: the calls \<^verbatim>\<open>st.error\<close>, \<^verbatim>\<open>st.warning\<close>, \<^verbatim>\<open>st.success\<close>,
  \<^verbatim>\<open>st.subheader\<close>, \<^verbatim>\<open>st.dataframe\<close> and \<^verbatim>\<open>st.download_button\<close>, the last with its data (the
  sheets of the workbook), file name and MIME type.
\<close>

record 'v sheet =
  sheet_name :: string
  header :: "label list"
  body :: "'v cell list list"

datatype 'v ui_event =
    StError string
  | StWarning string
  | StSuccess string
  | StSubheader string
  | StDataframe "'v dataframe"
  | StDownloadButton "'v sheet list" string string

record 'v world =
  frames :: "nat \<Rightarrow> 'v dataframe"
  next_ref :: nat
  ui :: "'v ui_event list"

definition new_frame :: "'v world \<Rightarrow> 'v dataframe \<Rightarrow> 'v world \<times> nat" where
  "new_frame w f = (w\<lparr>frames := (frames w)(next_ref w := f), next_ref := Suc (next_ref w)\<rparr>, next_ref w)"

definition set_frame :: "'v world \<Rightarrow> nat \<Rightarrow> 'v dataframe \<Rightarrow> 'v world" where
  "set_frame w a f = w\<lparr>frames := (frames w)(a := f)\<rparr>"

definition st_error :: "'v world \<Rightarrow> string \<Rightarrow> 'v world" where
  "st_error w msg = w\<lparr>ui := ui w @ [StError msg]\<rparr>"

section \<open>process_file\<close>

definition col_map :: "(string \<times> string list) list" where
  "col_map =
     [(''Date'', [''Invoice Date'', ''Invoice date'']),
      (''Invoice No'', [''Invoice No.'', ''Invoice Number'', ''Voucher No.'']),
      (''Party Name'', [''Party Name'', ''Receiver Name'']),
      (''Taxable Amount'', [''Taxable value'', ''Taxable Value'']),
      (''GST Rate'', [''Rate''])]"

text \<open>\<^verbatim>\<open>next((col for col in possible_names if col in df.columns), None)\<close>\<close>

definition first_present :: "label list \<Rightarrow> string list \<Rightarrow> string option" where
  "first_present labels possible_names = find (\<lambda>col. StrLabel col \<in> set labels) possible_names"

definition missing_column_message :: "string \<Rightarrow> string \<Rightarrow> string" where
  "missing_column_message file_type standard_name =
     ''Error in '' @ file_type @ '' file: Could not find the '' @ [CHR 0x27] @ standard_name
       @ [CHR 0x27] @ '' column. Please check the file.''"

text \<open>
  \<^verbatim>\<open>df.columns = df.columns.str.strip()\<close>: where \<^verbatim>\<open>.str\<close> accepts the column index, the
  object \<open>df\<close> gets the stripped labels, in an index of objects; where it does not, the
  statement raises AttributeError and nothing is assigned.
\<close>

definition strip_columns :: "'v world \<Rightarrow> nat \<Rightarrow> exn + 'v world" where
  "strip_columns w df =
     (if str_accepts (frames w df)
      then Inr (set_frame w df ((frames w df)\<lparr>columns := str_strip (columns (frames w df)),
                                             columns_dtype := ObjectDtype\<rparr>))
      else Inl (AttributeError ''Can only use .str accessor with string values!''))"

text \<open>
  The loop over \<^verbatim>\<open>col_map.items()\<close>. Each round strips the labels of the caller's
  DataFrame in place, looks for the first possible name among them and either reports the
  missing column and returns None, or records the name in \<open>found_cols\<close>, where it is kept
  as the label it is used as afterwards. An exception of the first statement ends the loop
  and leaves \<^verbatim>\<open>process_file\<close>.
\<close>

fun find_columns ::
  "(string \<times> string list) list \<Rightarrow> nat \<Rightarrow> string \<Rightarrow> 'v world \<Rightarrow> (string \<rightharpoonup> label)
     \<Rightarrow> 'v world \<times> (exn + (string \<rightharpoonup> label) option)" where
  "find_columns [] df file_type w found_cols = (w, Inr (Some found_cols))"
| "find_columns ((standard_name, possible_names) # items) df file_type w found_cols =
     (case strip_columns w df of
        Inl e \<Rightarrow> (w, Inl e)
      | Inr w1 \<Rightarrow>
          (case first_present (columns (frames w1 df)) possible_names of
             None \<Rightarrow> (st_error w1 (missing_column_message file_type standard_name), Inr None)
           | Some found_name \<Rightarrow>
               if found_name = []
               then (st_error w1 (missing_column_message file_type standard_name), Inr None)
               else find_columns items df file_type w1
                      (found_cols(standard_name \<mapsto> StrLabel found_name))))"

text \<open>A list display \<^verbatim>\<open>[d[k1], ..., d[kn]]\<close>: the lookups left to right, KeyError at the
  first key the dict does not hold.\<close>

fun lookups :: "(string \<rightharpoonup> label) \<Rightarrow> string list \<Rightarrow> exn + label list" where
  "lookups d [] = Inr []"
| "lookups d (k # ks) =
     (case d k of
        None \<Rightarrow> Inl (KeyError (StrLabel k))
      | Some v \<Rightarrow> (case lookups d ks of Inl e \<Rightarrow> Inl e | Inr vs \<Rightarrow> Inr (v # vs)))"

text \<open>A dict display \<^verbatim>\<open>{k1: v1, ..., kn: vn}\<close>: a later entry replaces an earlier one
  with the same key.\<close>

definition dict_display :: "(label \<times> label) list \<Rightarrow> (label \<rightharpoonup> label)" where
  "dict_display kvs = map_of (rev kvs)"

definition standard_names :: "string list" where
  "standard_names = [''Date'', ''Invoice No'', ''Party Name'', ''Taxable Amount'', ''GST Rate'']"

text \<open>
  Parts 2 and 3 of \<^verbatim>\<open>process_file\<close>: \<^verbatim>\<open>extracted_df\<close> is a new object (the copy of the
  selection), changed in place by \<^verbatim>\<open>dropna\<close>; \<^verbatim>\<open>final_df\<close> is the new object that
  \<^verbatim>\<open>rename\<close> returns, changed in place by the assignment to its GST Rate column and by
  \<^verbatim>\<open>insert\<close>. An exception leaves the store as it is at that point.
\<close>

definition extract_and_format ::
  "('v \<Rightarrow> string) \<Rightarrow> 'v world \<Rightarrow> nat \<Rightarrow> (string \<rightharpoonup> label) \<Rightarrow> 'v world \<times> (exn + nat option)" where
  "extract_and_format repr w df found_cols =
    (case lookups found_cols standard_names of
       Inl e \<Rightarrow> (w, Inl e)
     | Inr keys \<Rightarrow>
    (case getitem_list (frames w df) keys of
       Inl e \<Rightarrow> (w, Inl e)
     | Inr selected \<Rightarrow>
    (case new_frame w selected of (w2, extracted_df) \<Rightarrow>
    (case lookups found_cols [''Party Name'', ''Taxable Amount''] of
       Inl e \<Rightarrow> (w2, Inl e)
     | Inr required \<Rightarrow>
    (case dropna (frames w2 extracted_df) required of
       Inl e \<Rightarrow> (w2, Inl e)
     | Inr kept \<Rightarrow>
    (case set_frame w2 extracted_df kept of w3 \<Rightarrow>
    (case lookups found_cols standard_names of
       Inl e \<Rightarrow> (w3, Inl e)
     | Inr olds \<Rightarrow>
    (case new_frame w3 (rename (frames w3 extracted_df)
                          (dict_display (zip olds (map StrLabel standard_names)))) of
       (w4, final_df) \<Rightarrow>
    (case astype_str_plus repr (frames w4 final_df) (StrLabel ''GST Rate'') ''%'' of
       Inl e \<Rightarrow> (w4, Inl e)
     | Inr formatted \<Rightarrow>
    (case set_frame w4 final_df formatted of w5 \<Rightarrow>
    (case insert0 (frames w5 final_df) (StrLabel ''S/N'') (range1 (length (rows (frames w5 final_df)))) of
       Inl e \<Rightarrow> (w5, Inl e)
     | Inr numbered \<Rightarrow> (set_frame w5 final_df numbered, Inr (Some final_df)))))))))))))"

definition process_file ::
  "('v \<Rightarrow> string) \<Rightarrow> 'v world \<Rightarrow> nat option \<Rightarrow> string \<Rightarrow> 'v world \<times> (exn + nat option)" where
  "process_file repr w df file_type =
     (case df of
        None \<Rightarrow> (w, Inr None)
      | Some a \<Rightarrow>
          (case find_columns col_map a file_type w Map.empty of
             (w1, Inl e) \<Rightarrow> (w1, Inl e)
           | (w1, Inr None) \<Rightarrow> (w1, Inr None)
           | (w1, Inr (Some found_cols)) \<Rightarrow> extract_and_format repr w1 a found_cols))"

section \<open>load_data and the button\<close>

text \<open>
  An uploaded file has a name and a content. The two pandas readers are parameters of the
  model: called with the file and \<^verbatim>\<open>skiprows\<close>, a reader returns the table it parsed,
  or \<open>Inl\<close> of the text of the exception it raised.
\<close>

record 'f uploaded_file =
  name :: string
  content :: 'f

record ('f, 'v) readers =
  read_csv :: "'f uploaded_file \<Rightarrow> nat \<Rightarrow> string + 'v dataframe"
  read_excel :: "'f uploaded_file \<Rightarrow> nat \<Rightarrow> string + 'v dataframe"

definition read_error_message :: "string \<Rightarrow> string \<Rightarrow> string" where
  "read_error_message file_name e =
     ''Error reading '' @ file_name @ '': '' @ e
       @ ''. Please ensure it is a valid file with data starting after row 8.''"

definition load_data ::
  "('f, 'v) readers \<Rightarrow> 'v world \<Rightarrow> 'f uploaded_file option \<Rightarrow> 'v world \<times> nat option" where
  "load_data pd w uploaded_file =
     (case uploaded_file of
        None \<Rightarrow> (w, None)
      | Some f \<Rightarrow>
          if endswith (name f) ''.csv'' then
            (case read_csv pd f 8 of
               Inl e \<Rightarrow> (st_error w (read_error_message (name f) e), None)
             | Inr df \<Rightarrow> (case new_frame w df of (w1, a) \<Rightarrow> (w1, Some a)))
          else if endswith (name f) ''.xls'' \<or> endswith (name f) ''.xlsx'' then
            (case read_excel pd f 8 of
               Inl e \<Rightarrow> (st_error w (read_error_message (name f) e), None)
             | Inr df \<Rightarrow> (case new_frame w df of (w1, a) \<Rightarrow> (w1, Some a)))
          else (w, None))"

text \<open>
  \<^verbatim>\<open>df.to_excel(writer, sheet_name=..., index=...)\<close> adds a sheet to the writer: the
  header row, then one row per row of the table; with \<^verbatim>\<open>index=True\<close> each row starts
  with its index label, under an empty header cell. The bytes of the workbook and the limit
  on the size of a sheet are not modelled.
\<close>

definition to_excel :: "'v dataframe \<Rightarrow> 'v sheet list \<Rightarrow> string \<Rightarrow> bool \<Rightarrow> 'v sheet list" where
  "to_excel df writer sheet index =
     writer @ [\<lparr>sheet_name = sheet,
                header = (if index then StrLabel [] # columns df else columns df),
                body = map (\<lambda>(i, r). if index then IntCell (int i) # r else r) (rows df)\<rparr>]"

text \<open>
  The body of \<^verbatim>\<open>if st.button(...)\<close>, run when the button is pressed. The pictographs
  of the texts shown are left out. An exception that leaves \<^verbatim>\<open>process_file\<close> is caught
  nowhere: it ends the run, and nothing that follows the call is executed.
\<close>

definition button_pressed ::
  "('f, 'v) readers \<Rightarrow> ('v \<Rightarrow> string) \<Rightarrow> 'v world \<Rightarrow> 'f uploaded_file option
     \<Rightarrow> 'f uploaded_file option \<Rightarrow> 'v world \<times> (exn + unit)" where
  "button_pressed pd repr w purchase_file sales_file =
     (if purchase_file \<noteq> None \<and> sales_file \<noteq> None then
        (case load_data pd w purchase_file of (w1, df_purchase) \<Rightarrow>
        (case load_data pd w1 sales_file of (w2, df_sales) \<Rightarrow>
        (case process_file repr w2 df_purchase ''Purchase'' of
           (w3, Inl e) \<Rightarrow> (w3, Inl e)
         | (w3, Inr purchase_result_df) \<Rightarrow>
        (case process_file repr w3 df_sales ''Sales'' of
           (w4, Inl e) \<Rightarrow> (w4, Inl e)
         | (w4, Inr sales_result_df) \<Rightarrow>
        (case (purchase_result_df, sales_result_df) of
           (Some p, Some s) \<Rightarrow>
             (let writer = to_excel (frames w4 p) [] ''Purchase Data'' False;
                  processed_data = to_excel (frames w4 s) writer ''Sales Data'' False
              in (w4\<lparr>ui := ui w4 @
                    [StSuccess ''Both files processed successfully! Download your Excel file below.'',
                     StSubheader ''Purchase Data Preview'', StDataframe (frames w4 p),
                     StSubheader ''Sales Data Preview'', StDataframe (frames w4 s),
                     StDownloadButton processed_data ''Processed_Data.xlsx''
                       ''application/vnd.openxmlformats-officedocument.spreadsheetml.sheet'']\<rparr>,
                  Inr ()))
         | _ \<Rightarrow> (st_error w4 ''Processing failed. Please review the errors above.'', Inr ()))))))
      else (w\<lparr>ui := ui w @
              [StWarning ''Please upload both the Purchase and Sales files before processing.'']\<rparr>,
            Inr ()))"

section \<open>Vocabulary of the statements\<close>

text \<open>
  The definitions of this section are not taken from the source: they name what the lemmas
  and theorems below speak about, and each is tied to the functions above by a lemma.
\<close>

subsection \<open>The loop and the table as functions of labels and rows\<close>

text \<open>
  \<open>resolve\<close> is the loop of \<^verbatim>\<open>process_file\<close> without the store and the page: the standard
  name whose column is missing, or the names found (lemma \<open>find_columns_resolve\<close>).
  \<open>has_alias\<close>: one of the possible names is among the labels. \<open>resolved\<close>: the first
  possible name of a standard name that is among the labels.
\<close>

fun resolve ::
  "label list \<Rightarrow> (string \<times> string list) list \<Rightarrow> (string \<rightharpoonup> label) \<Rightarrow> string + (string \<rightharpoonup> label)" where
  "resolve labels [] found = Inr found"
| "resolve labels ((standard_name, possible_names) # items) found =
     (case first_present labels possible_names of
        None \<Rightarrow> Inl standard_name
      | Some found_name \<Rightarrow>
          if found_name = [] then Inl standard_name
          else resolve labels items (found(standard_name \<mapsto> StrLabel found_name)))"

definition has_alias :: "label list \<Rightarrow> string list \<Rightarrow> bool" where
  "has_alias labels possible_names = (\<exists>col \<in> set possible_names. StrLabel col \<in> set labels)"

definition resolved :: "label list \<Rightarrow> string \<Rightarrow> label option" where
  "resolved labels standard_name =
     (case map_of col_map standard_name of
        None \<Rightarrow> None
      | Some possible_names \<Rightarrow> map_option StrLabel (first_present labels possible_names))"

text \<open>
  \<open>stripped\<close> is a DataFrame after its labels were stripped, \<open>stripped_world\<close> the store
  after the labels of one of its DataFrames were stripped (lemma \<open>strip_columns_accepted\<close>).
  \<open>extracted_frame\<close> and \<open>final_frame\<close> are the values of \<^verbatim>\<open>extracted_df\<close> and \<^verbatim>\<open>final_df\<close>
  when \<^verbatim>\<open>process_file\<close> returns, for the list of the five names found (lemma
  \<open>extract_and_format_Inr\<close>).
\<close>

definition stripped :: "'v dataframe \<Rightarrow> 'v dataframe" where
  "stripped df = df\<lparr>columns := str_strip (columns df), columns_dtype := ObjectDtype\<rparr>"

definition stripped_world :: "'v world \<Rightarrow> nat \<Rightarrow> 'v world" where
  "stripped_world w a = set_frame w a (stripped (frames w a))"

definition extracted_frame :: "'v dataframe \<Rightarrow> label list \<Rightarrow> 'v dataframe" where
  "extracted_frame df keys =
     \<lparr>columns = select_labels (columns df) keys,
      columns_dtype = columns_dtype df,
      rows = filter (\<lambda>(ix, r). row_complete (select_labels (columns df) keys) [keys ! 2, keys ! 3] r)
               (map (\<lambda>(ix, r). (ix, select_cells (columns df) keys r)) (rows df))\<rparr>"

definition final_frame :: "('v \<Rightarrow> string) \<Rightarrow> 'v dataframe \<Rightarrow> label list \<Rightarrow> 'v dataframe" where
  "final_frame repr df keys =
     \<lparr>columns = StrLabel ''S/N'' # map (rename_label (dict_display (zip keys (map StrLabel standard_names))))
                                    (select_labels (columns df) keys),
      columns_dtype = ObjectDtype,
      rows = map2 (\<lambda>v (ix, r). (ix, v #
                  map2 (str_plus repr (StrLabel ''GST Rate'') ''%'')
                    (map (rename_label (dict_display (zip keys (map StrLabel standard_names))))
                       (select_labels (columns df) keys)) r))
               (range1 (length (rows (extracted_frame df keys)))) (rows (extracted_frame df keys))\<rparr>"

text \<open>
  A row \<open>lacks\<close> a label when one of its cells under that label is missing. \<open>survivors\<close>
  are the rows that lack neither of two labels, \<open>clean_cells\<close> the cells of a row of the
  table returned, after the serial number (lemma \<open>final_frame_rows\<close>).
\<close>

definition lacks :: "label list \<Rightarrow> label \<Rightarrow> 'v cell list \<Rightarrow> bool" where
  "lacks labels k r = list_ex isna (cells_under labels k r)"

definition survivors :: "'v dataframe \<Rightarrow> label \<Rightarrow> label \<Rightarrow> (nat \<times> 'v cell list) list" where
  "survivors df p t =
     filter (\<lambda>(ix, r). \<not> lacks (columns df) p r \<and> \<not> lacks (columns df) t r) (rows df)"

definition clean_cells ::
  "('v \<Rightarrow> string) \<Rightarrow> label list \<Rightarrow> label list \<Rightarrow> 'v cell list \<Rightarrow> 'v cell list" where
  "clean_cells repr labels keys r =
     concat (map (\<lambda>k. cells_under labels k r) (butlast keys))
       @ map (\<lambda>c. StrCell (py_str repr c @ ''%'')) (cells_under labels (last keys) r)"

subsection \<open>One file on its own\<close>

text \<open>
  \<open>said w w'\<close> is what the page shows at \<open>w'\<close> beyond what it showed at \<open>w\<close>.
  \<open>read_table\<close> is the call of a reader that \<^verbatim>\<open>load_data\<close> makes for a file, if any;
  \<open>loaded\<close> the table it gives, \<open>read_errors\<close> the error \<^verbatim>\<open>load_data\<close> shows for it.
  \<open>accepted\<close> says of the table loaded, if any, that \<^verbatim>\<open>.str\<close> accepts its column index.
  \<open>column_errors\<close> and \<open>table_value\<close> are the error \<^verbatim>\<open>process_file\<close> shows for such a table
  and the table it returns, as values. \<open>run_file\<close> is \<^verbatim>\<open>load_data\<close> followed by
  \<^verbatim>\<open>process_file\<close> for one file, \<open>table_of\<close> the table this returns. \<open>closing\<close> is what the
  button shows at the end, given the two tables.
\<close>

definition said :: "'v world \<Rightarrow> 'v world \<Rightarrow> 'v ui_event list" where
  "said w w' = drop (length (ui w)) (ui w')"

definition read_table :: "('f, 'v) readers \<Rightarrow> 'f uploaded_file \<Rightarrow> (string + 'v dataframe) option" where
  "read_table pd f =
     (if endswith (name f) ''.csv'' then Some (read_csv pd f 8)
      else if endswith (name f) ''.xls'' \<or> endswith (name f) ''.xlsx'' then Some (read_excel pd f 8)
      else None)"

definition loaded :: "('f, 'v) readers \<Rightarrow> 'f uploaded_file \<Rightarrow> 'v dataframe option" where
  "loaded pd f = (case read_table pd f of Some (Inr df) \<Rightarrow> Some df | _ \<Rightarrow> None)"

definition accepted :: "('f, 'v) readers \<Rightarrow> 'f uploaded_file \<Rightarrow> bool" where
  "accepted pd f = (case loaded pd f of None \<Rightarrow> True | Some df \<Rightarrow> str_accepts df)"

definition read_errors :: "('f, 'v) readers \<Rightarrow> 'f uploaded_file \<Rightarrow> 'v ui_event list" where
  "read_errors pd f =
     (case read_table pd f of Some (Inl e) \<Rightarrow> [StError (read_error_message (name f) e)] | _ \<Rightarrow> [])"

definition column_errors :: "string \<Rightarrow> 'v dataframe \<Rightarrow> 'v ui_event list" where
  "column_errors ft df =
     (case resolve (str_strip (columns df)) col_map Map.empty of
        Inl n \<Rightarrow> [StError (missing_column_message ft n)]
      | Inr fc \<Rightarrow> [])"

definition table_value :: "('v \<Rightarrow> string) \<Rightarrow> 'v dataframe \<Rightarrow> 'v dataframe option" where
  "table_value repr df =
     (case resolve (str_strip (columns df)) col_map Map.empty of
        Inl n \<Rightarrow> None
      | Inr fc \<Rightarrow> Some (final_frame repr (stripped df)
                  [the (fc ''Date''), the (fc ''Invoice No''), the (fc ''Party Name''),
                   the (fc ''Taxable Amount''), the (fc ''GST Rate'')]))"

definition run_file ::
  "('f, 'v) readers \<Rightarrow> ('v \<Rightarrow> string) \<Rightarrow> 'v world \<Rightarrow> 'f uploaded_file \<Rightarrow> string
     \<Rightarrow> 'v world \<times> (exn + nat option)" where
  "run_file pd repr w f ft = (case load_data pd w (Some f) of (w1, df) \<Rightarrow> process_file repr w1 df ft)"

definition table_of ::
  "('f, 'v) readers \<Rightarrow> ('v \<Rightarrow> string) \<Rightarrow> 'v world \<Rightarrow> 'f uploaded_file \<Rightarrow> string
     \<Rightarrow> 'v dataframe option" where
  "table_of pd repr w f ft =
     (case run_file pd repr w f ft of
        (w', Inr (Some r)) \<Rightarrow> Some (frames w' r)
      | _ \<Rightarrow> None)"

definition closing :: "'v dataframe option \<Rightarrow> 'v dataframe option \<Rightarrow> 'v ui_event list" where
  "closing purchase sales =
     (case (purchase, sales) of
        (Some p, Some s) \<Rightarrow>
          [StSuccess ''Both files processed successfully! Download your Excel file below.'',
           StSubheader ''Purchase Data Preview'', StDataframe p,
           StSubheader ''Sales Data Preview'', StDataframe s,
           StDownloadButton
             [\<lparr>sheet_name = ''Purchase Data'', header = columns p, body = map snd (rows p)\<rparr>,
              \<lparr>sheet_name = ''Sales Data'', header = columns s, body = map snd (rows s)\<rparr>]
             ''Processed_Data.xlsx''
             ''application/vnd.openxmlformats-officedocument.spreadsheetml.sheet'']
      | _ \<Rightarrow> [StError ''Processing failed. Please review the errors above.''])"

subsection \<open>Example inputs\<close>

text \<open>
  \<open>example_frame\<close> has labels to strip and rows with missing values; \<open>headless_world\<close>
  holds a table without a column for Invoice No; \<open>twin_rate_world\<close> holds a table with two
  labels that are both \<open>Rate\<close> once stripped. \<open>numeric_header_frame\<close> is a table read from a
  sheet whose ninth row holds numbers only (the years 2021 to 2025), so that its column
  index is an index of integers; \<open>short_sheet_frame\<close> is the empty table that
  \<^verbatim>\<open>read_excel\<close> of pandas 2 returns for a sheet with fewer than nine rows, whose column
  index is an empty \<^verbatim>\<open>RangeIndex\<close>. \<open>example_readers\<close> read \<open>example_frame\<close> from every CSV
  file and fail on every Excel file; \<open>numeric_readers\<close> read \<open>numeric_header_frame\<close> from
  a file named \<open>purchase.xlsx\<close> and \<open>example_frame\<close> from every other Excel file.
\<close>

definition empty_frame :: "unit dataframe" where
  "empty_frame = \<lparr>columns = [], columns_dtype = ObjectDtype, rows = []\<rparr>"

definition example_frame :: "unit dataframe" where
  "example_frame =
     \<lparr>columns = [StrLabel '' Invoice Date'', StrLabel ''Voucher No.'', StrLabel ''Receiver Name '',
                 StrLabel ''Taxable value'', StrLabel ''Rate''],
      columns_dtype = ObjectDtype,
      rows = [(0, [StrCell ''2024-01-01'', StrCell ''INV001'', StrCell ''Acme Co'', IntCell 1000, IntCell 18]),
              (1, [StrCell ''2024-01-02'', StrCell ''INV002'', NaN, IntCell 500, IntCell 12]),
              (2, [NaN, StrCell ''INV003'', StrCell ''Bolt Ltd'', IntCell 250, NaN]),
              (3, [StrCell ''2024-01-04'', NaN, StrCell ''Cog Inc'', IntCell 75, StrCell ''18'']),
              (4, [StrCell ''2024-01-05'', StrCell ''INV005'', StrCell ''Dyn plc'', NaN, IntCell 5])]\<rparr>"

definition example_world :: "unit world" where
  "example_world = \<lparr>frames = (\<lambda>_. empty_frame)(0 := example_frame), next_ref = 1, ui = []\<rparr>"

definition headless_world :: "unit world" where
  "headless_world =
     \<lparr>frames = (\<lambda>_. empty_frame)
        (0 := \<lparr>columns = [StrLabel ''Invoice Date '', StrLabel ''  Party Name'',
                          StrLabel ''Taxable Value'', StrLabel ''Rate''],
               columns_dtype = ObjectDtype,
               rows = [(0, [StrCell ''2024-01-01'', StrCell ''Acme Co'', IntCell 1000, IntCell 18])]\<rparr>),
      next_ref = 1, ui = []\<rparr>"

definition twin_rate_world :: "unit world" where
  "twin_rate_world =
     \<lparr>frames = (\<lambda>_. empty_frame)
        (0 := \<lparr>columns = [StrLabel ''Invoice Date'', StrLabel ''Invoice No.'', StrLabel ''Party Name'',
                          StrLabel ''Taxable value'', StrLabel ''Rate'', StrLabel ''Rate ''],
               columns_dtype = ObjectDtype,
               rows = [(0, [StrCell ''2024-01-01'', StrCell ''INV001'', StrCell ''Acme Co'', IntCell 1000,
                            IntCell 18, IntCell 5])]\<rparr>),
      next_ref = 1, ui = []\<rparr>"

definition numeric_header_frame :: "unit dataframe" where
  "numeric_header_frame =
     \<lparr>columns = [IntLabel 2021, IntLabel 2022, IntLabel 2023, IntLabel 2024, IntLabel 2025],
      columns_dtype = NumericDtype,
      rows = [(0, [IntCell 10, IntCell 20, IntCell 30, IntCell 40, IntCell 50])]\<rparr>"

definition numeric_header_world :: "unit world" where
  "numeric_header_world =
     \<lparr>frames = (\<lambda>_. empty_frame)(0 := numeric_header_frame), next_ref = 1, ui = []\<rparr>"

definition short_sheet_frame :: "unit dataframe" where
  "short_sheet_frame = \<lparr>columns = [], columns_dtype = NumericDtype, rows = []\<rparr>"

definition short_sheet_world :: "unit world" where
  "short_sheet_world =
     \<lparr>frames = (\<lambda>_. empty_frame)(0 := short_sheet_frame), next_ref = 1, ui = []\<rparr>"

definition example_readers :: "(unit, unit) readers" where
  "example_readers = \<lparr>read_csv = (\<lambda>f skiprows. Inr example_frame),
                       read_excel = (\<lambda>f skiprows. Inl ''File is not a zip file'')\<rparr>"

definition numeric_readers :: "(unit, unit) readers" where
  "numeric_readers =
     \<lparr>read_csv = (\<lambda>f skiprows. Inr example_frame),
      read_excel = (\<lambda>f skiprows. if name f = ''purchase.xlsx'' then Inr numeric_header_frame
                                  else Inr example_frame)\<rparr>"

definition empty_world :: "unit world" where
  "empty_world = \<lparr>frames = (\<lambda>_. empty_frame), next_ref = 0, ui = []\<rparr>"

section \<open>Stripping\<close>

lemma dropWhile_rev_dropWhile_stable:
  "dropWhile P (rev (dropWhile P (rev (dropWhile P s)))) = rev (dropWhile P (rev (dropWhile P s)))"
proof (cases "dropWhile P (rev (dropWhile P s)) = []")
  case True
  show ?thesis unfolding True by simp
next
  case False
  define t where "t = dropWhile P s"
  define u where "u = dropWhile P (rev t)"
  from False have u_ne: "u \<noteq> []" by (simp add: u_def t_def)
  then have t_ne: "t \<noteq> []" by (auto simp: u_def)
  obtain pre where pre: "rev t = pre @ u"
    unfolding u_def by (metis takeWhile_dropWhile_id)
  from pre u_ne have "last u = last (rev t)" by simp
  also have "\<dots> = hd t" using t_ne by (simp add: last_rev)
  finally have "last u = hd t" .
  moreover have "\<not> P (hd t)" using t_ne unfolding t_def by (rule hd_dropWhile)
  ultimately have "\<not> P (hd (rev u))" using u_ne by (simp add: hd_rev)
  then have "dropWhile P (rev u) = rev u" using u_ne by (cases "rev u") auto
  then show ?thesis by (simp add: u_def t_def)
qed

lemma py_strip_idem: "py_strip (py_strip s) = py_strip s"
proof -
  have "dropWhile py_isspace (rev (rev (dropWhile py_isspace (rev (dropWhile py_isspace s)))))
        = dropWhile py_isspace (rev (dropWhile py_isspace s))"
    by simp
  then show ?thesis
    unfolding py_strip_def by (simp add: dropWhile_rev_dropWhile_stable)
qed

lemma strip_label_idem: "strip_label (strip_label l) = strip_label l"
  by (cases l) (simp_all add: py_strip_idem)

lemma str_strip_idem: "str_strip (str_strip ls) = str_strip ls"
  by (simp add: str_strip_def strip_label_idem)

lemma strip_label_cases: "is_str (strip_label l) \<or> strip_label l = NaNLabel"
  by (cases l) simp_all

lemma str_accepts_stripped: "str_accepts (stripped df)"
  using strip_label_cases
  by (auto simp: str_accepts_def stripped_def str_strip_def list_ex_iff list_all_iff)

lemma str_accepts_dtype: "str_accepts df \<Longrightarrow> columns_dtype df = ObjectDtype"
  by (simp add: str_accepts_def)

lemma strip_columns_accepted:
  "str_accepts (frames w a) \<Longrightarrow> strip_columns w a = Inr (stripped_world w a)"
  by (simp add: strip_columns_def stripped_world_def stripped_def)

lemma strip_columns_refused:
  "\<not> str_accepts (frames w a) \<Longrightarrow>
   strip_columns w a = Inl (AttributeError ''Can only use .str accessor with string values!'')"
  by (simp add: strip_columns_def)

lemma stripped_world_stable:
  "str_accepts (frames w a) \<Longrightarrow> str_strip (columns (frames w a)) = columns (frames w a) \<Longrightarrow>
   stripped_world w a = w"
proof -
  assume acc: "str_accepts (frames w a)"
    and st: "str_strip (columns (frames w a)) = columns (frames w a)"
  from acc have d: "ObjectDtype = columns_dtype (frames w a)" by (simp add: str_accepts_def)
  have "stripped (frames w a) = frames w a"
    unfolding stripped_def st d by simp
  then show ?thesis by (simp add: stripped_world_def set_frame_def)
qed

lemma frames_stripped_world_same: "frames (stripped_world w a) a = stripped (frames w a)"
  by (simp add: stripped_world_def set_frame_def)

lemma columns_stripped: "columns (stripped df) = str_strip (columns df)"
  by (simp add: stripped_def)

lemma rows_stripped: "rows (stripped df) = rows df"
  by (simp add: stripped_def)

lemma columns_stripped_world:
  "columns (frames (stripped_world w a) a) = str_strip (columns (frames w a))"
  by (simp add: frames_stripped_world_same columns_stripped)


lemma frames_stripped_world_other:
  "b \<noteq> a \<Longrightarrow> frames (stripped_world w a) b = frames w b"
  by (simp add: stripped_world_def set_frame_def)

lemma next_ref_stripped_world: "next_ref (stripped_world w a) = next_ref w"
  by (simp add: stripped_world_def set_frame_def)

lemma ui_stripped_world: "ui (stripped_world w a) = ui w"
  by (simp add: stripped_world_def set_frame_def)

lemma str_accepts_stripped_world: "str_accepts (frames (stripped_world w a) a)"
  by (simp add: frames_stripped_world_same str_accepts_stripped)

lemma stripped_world_idem: "stripped_world (stripped_world w a) a = stripped_world w a"
  by (rule stripped_world_stable)
     (simp_all add: str_accepts_stripped_world columns_stripped_world str_strip_idem)

lemma wf_frame_stripped: "wf_frame (stripped df) = wf_frame df"
  by (simp add: wf_frame_def stripped_def str_strip_def)

lemma stripped_idem: "stripped (stripped df) = stripped df"
  by (simp add: stripped_def str_strip_idem)

section \<open>The loop of process_file\<close>

lemma find_columns_stable:
  "str_accepts (frames w a) \<Longrightarrow> str_strip (columns (frames w a)) = columns (frames w a) \<Longrightarrow>
   find_columns items a ft w fc =
     (case resolve (columns (frames w a)) items fc of
        Inl n \<Rightarrow> (st_error w (missing_column_message ft n), Inr None)
      | Inr fc' \<Rightarrow> (w, Inr (Some fc')))"
proof (induction items arbitrary: fc)
  case Nil
  then show ?case by simp
next
  case (Cons item items)
  obtain n ps where item: "item = (n, ps)" by (cases item)
  from Cons.prems have w: "strip_columns w a = Inr w"
    by (simp add: strip_columns_accepted stripped_world_stable)
  show ?case
    by (simp add: item w Cons.IH [OF Cons.prems] fun_upd_def split: option.splits)
qed

lemma find_columns_resolve:
  "items \<noteq> [] \<Longrightarrow> str_accepts (frames w a) \<Longrightarrow>
   find_columns items a ft w fc =
     (case resolve (str_strip (columns (frames w a))) items fc of
        Inl n \<Rightarrow> (st_error (stripped_world w a) (missing_column_message ft n), Inr None)
      | Inr fc' \<Rightarrow> (stripped_world w a, Inr (Some fc')))"
proof (cases items)
  case Nil
  assume "items \<noteq> []"
  with Nil show ?thesis by simp
next
  case (Cons item rest)
  assume acc: "str_accepts (frames w a)"
  obtain n ps where item: "item = (n, ps)" by (cases item)
  have st: "str_strip (columns (frames (stripped_world w a) a)) = columns (frames (stripped_world w a) a)"
    by (simp add: columns_stripped_world str_strip_idem)
  show ?thesis
    unfolding Cons item
    by (simp add: strip_columns_accepted [OF acc] find_columns_stable [OF str_accepts_stripped_world st]
        columns_stripped_world split: option.splits)
qed

lemma find_columns_refused:
  "items \<noteq> [] \<Longrightarrow> \<not> str_accepts (frames w a) \<Longrightarrow>
   find_columns items a ft w fc
     = (w, Inl (AttributeError ''Can only use .str accessor with string values!''))"
  by (cases items) (auto simp: strip_columns_refused)

lemma first_present_None: "first_present labels ps = None \<longleftrightarrow> \<not> has_alias labels ps"
  by (auto simp: first_present_def has_alias_def find_None_iff)

lemma first_present_Some:
  "first_present labels ps = Some x \<Longrightarrow> x \<in> set ps \<and> StrLabel x \<in> set labels"
  unfolding first_present_def by (induction ps) (auto split: if_splits)

lemma resolve_Inr_iff:
  assumes "\<forall>(n, ps) \<in> set items. [] \<notin> set ps"
  shows "(\<exists>fc'. resolve labels items fc = Inr fc') \<longleftrightarrow> (\<forall>(n, ps) \<in> set items. has_alias labels ps)"
  using assms
proof (induction items arbitrary: fc)
  case Nil
  show ?case by simp
next
  case (Cons item items)
  obtain n ps where item: "item = (n, ps)" by (cases item)
  from Cons.prems have ne: "[] \<notin> set ps" and rest: "\<forall>(n, ps) \<in> set items. [] \<notin> set ps"
    by (auto simp: item)
  show ?case
  proof (cases "first_present labels ps")
    case None
    then have "\<not> has_alias labels ps" by (simp add: first_present_None)
    with None show ?thesis by (simp add: item)
  next
    case (Some x)
    from first_present_Some [OF Some] ne have "x \<noteq> []" and "has_alias labels ps"
      by (auto simp: has_alias_def)
    then show ?thesis
      using Cons.IH [OF rest] by (simp add: item Some)
  qed
qed

lemma resolve_outside:
  "resolve labels items fc = Inr fc' \<Longrightarrow> n \<notin> fst ` set items \<Longrightarrow> fc' n = fc n"
proof (induction items arbitrary: fc)
  case Nil
  then show ?case by simp
next
  case (Cons item items)
  obtain m ps where item: "item = (m, ps)" by (cases item)
  from Cons.prems show ?case
    by (auto simp: item split: option.splits if_splits dest!: Cons.IH)
qed

lemma resolve_value:
  "resolve labels items fc = Inr fc' \<Longrightarrow> distinct (map fst items) \<Longrightarrow> (n, ps) \<in> set items \<Longrightarrow>
   fc' n = map_option StrLabel (first_present labels ps)"
proof (induction items arbitrary: fc)
  case Nil
  then show ?case by simp
next
  case (Cons item items)
  obtain m qs where item: "item = (m, qs)" by (cases item)
  from Cons.prems(1) obtain x where x: "first_present labels qs = Some x" "x \<noteq> []"
    and rest: "resolve labels items (fc(m \<mapsto> StrLabel x)) = Inr fc'"
    by (auto simp: item split: option.splits if_splits)
  show ?case
  proof (cases "(n, ps) = (m, qs)")
    case True
    from Cons.prems(2) have "m \<notin> fst ` set items" by (simp add: item)
    from resolve_outside [OF rest this] show ?thesis using True x by simp
  next
    case False
    with Cons.prems(3) have "(n, ps) \<in> set items" by (auto simp: item)
    moreover from Cons.prems(2) have "distinct (map fst items)" by simp
    ultimately show ?thesis using Cons.IH [OF rest] by simp
  qed
qed

lemma resolve_Inl:
  "resolve labels items fc = Inl n \<Longrightarrow> \<forall>(n, ps) \<in> set items. [] \<notin> set ps \<Longrightarrow>
   \<exists>pre ps post. items = pre @ (n, ps) # post \<and> (\<forall>(n', ps') \<in> set pre. has_alias labels ps')
     \<and> \<not> has_alias labels ps"
proof (induction items arbitrary: fc)
  case Nil
  then show ?case by simp
next
  case (Cons item items)
  obtain m qs where item: "item = (m, qs)" by (cases item)
  from Cons.prems(2) have ne: "[] \<notin> set qs" and rest: "\<forall>(n, ps) \<in> set items. [] \<notin> set ps"
    by (auto simp: item)
  show ?case
  proof (cases "first_present labels qs")
    case None
    with Cons.prems(1) have "n = m" by (simp add: item)
    moreover from None have "\<not> has_alias labels qs" by (simp add: first_present_None)
    ultimately show ?thesis
      by (intro exI [of _ "[]"] exI [of _ qs] exI [of _ items]) (simp add: item)
  next
    case (Some x)
    from first_present_Some [OF Some] ne have x: "x \<noteq> []" and has: "has_alias labels qs"
      by (auto simp: has_alias_def)
    from Cons.prems(1) have "resolve labels items (fc(m \<mapsto> StrLabel x)) = Inl n"
      by (simp add: item Some x)
    from Cons.IH [OF this rest] obtain pre ps post where
      "items = pre @ (n, ps) # post" "\<forall>(n', ps') \<in> set pre. has_alias labels ps'" "\<not> has_alias labels ps"
      by (elim exE conjE)
    with has show ?thesis
      by (intro exI [of _ "item # pre"] exI [of _ ps] exI [of _ post]) (simp add: item)
  qed
qed

section \<open>Selecting columns\<close>

lemma zip_filter_fst_snd:
  "zip (filter P (map fst ps)) (map snd (filter (\<lambda>lc. P (fst lc)) ps)) = filter (\<lambda>lc. P (fst lc)) ps"
  by (induction ps) auto

lemma length_cells_under:
  assumes "length labels = length r"
  shows "length (cells_under labels k r) = length (filter (\<lambda>l. l = k) labels)"
proof -
  have "length (cells_under labels k r) = length (filter (\<lambda>l. l = k) (map fst (zip labels r)))"
    by (simp add: cells_under_def filter_map comp_def)
  then show ?thesis using assms by simp
qed

lemma zip_cells_under:
  assumes "length labels = length r"
  shows "zip (filter (\<lambda>l. l = k) labels) (cells_under labels k r)
         = filter (\<lambda>lc. fst lc = k) (zip labels r)"
proof -
  have "map fst (zip labels r) = labels" using assms by simp
  then show ?thesis
    using zip_filter_fst_snd [of "\<lambda>l. l = k" "zip labels r"] by (simp add: cells_under_def)
qed

lemma zip_selected:
  assumes "length labels = length r"
  shows "zip (select_labels labels keys) (select_cells labels keys r)
         = concat (map (\<lambda>k. filter (\<lambda>lc. fst lc = k) (zip labels r)) keys)"
proof (induction keys)
  case Nil
  show ?case by (simp add: select_labels_def select_cells_def)
next
  case (Cons k keys)
  have "length (filter (\<lambda>l. l = k) labels) = length (cells_under labels k r)"
    using assms by (simp add: length_cells_under)
  then show ?case
    using Cons.IH by (simp add: select_labels_def select_cells_def zip_cells_under [OF assms])
qed

lemma length_select_cells:
  assumes "length labels = length r"
  shows "length (select_cells labels keys r) = length (select_labels labels keys)"
  by (induction keys) (simp_all add: select_labels_def select_cells_def length_cells_under [OF assms])

lemma concat_map_single:
  "distinct keys \<Longrightarrow> k' \<in> set keys \<Longrightarrow> concat (map (\<lambda>k. if k = k' then f k else []) keys) = f k'"
  by (induction keys) auto

lemma cells_under_selected:
  assumes "length labels = length r" and "distinct keys" and "k' \<in> set keys"
  shows "cells_under (select_labels labels keys) k' (select_cells labels keys r) = cells_under labels k' r"
proof -
  have "map snd (filter (\<lambda>lc. fst lc = k')
          (concat (map (\<lambda>k. filter (\<lambda>lc. fst lc = k) (zip labels r)) keys)))
        = concat (map (\<lambda>k. if k = k' then cells_under labels k r else []) keys)"
    by (induction keys) (auto simp: cells_under_def intro: filter_False)
  then have "cells_under (select_labels labels keys) k' (select_cells labels keys r)
        = concat (map (\<lambda>k. if k = k' then cells_under labels k r else []) keys)"
    unfolding cells_under_def [of "select_labels labels keys"]
    by (simp add: zip_selected [OF assms(1)])
  then show ?thesis
    by (simp add: concat_map_single [OF assms(2,3)])
qed

lemma map2_selected:
  assumes "length labels = length r"
  shows "map2 F (map ren (select_labels labels keys)) (select_cells labels keys r)
         = concat (map (\<lambda>k. map (F (ren k)) (cells_under labels k r)) keys)"
proof -
  have "map (\<lambda>lc. F (ren (fst lc)) (snd lc))
          (concat (map (\<lambda>k. filter (\<lambda>lc. fst lc = k) (zip labels r)) keys))
        = concat (map (\<lambda>k. map (F (ren k)) (cells_under labels k r)) keys)"
    by (induction keys) (auto simp: cells_under_def)
  then show ?thesis
    by (simp add: zip_map1 zip_selected [OF assms] case_prod_unfold comp_def)
qed

lemma set_select_labels:
  "set keys \<subseteq> set labels \<Longrightarrow> set (select_labels labels keys) = set keys"
  by (auto simp: select_labels_def)

lemma row_complete_selected:
  assumes "length labels = length r" and "distinct keys" and "set ks \<subseteq> set keys"
  shows "row_complete (select_labels labels keys) ks (select_cells labels keys r)
         = row_complete labels ks r"
proof -
  have "\<And>k. k \<in> set ks \<Longrightarrow>
          cells_under (select_labels labels keys) k (select_cells labels keys r) = cells_under labels k r"
    using assms by (intro cells_under_selected) auto
  then show ?thesis
    unfolding row_complete_def list_all_iff by simp
qed

section \<open>The pandas operations where they succeed\<close>

lemma getitem_list_Inr:
  assumes "set keys \<subseteq> set (columns df)"
  shows "getitem_list df keys =
     Inr \<lparr>columns = select_labels (columns df) keys,
          columns_dtype = columns_dtype df,
          rows = map (\<lambda>(i, r). (i, select_cells (columns df) keys r)) (rows df)\<rparr>"
proof -
  from assms have "filter (\<lambda>k. k \<notin> set (columns df)) keys = []"
    by (auto simp: filter_empty_conv)
  then show ?thesis by (simp add: getitem_list_def)
qed

lemma dropna_Inr:
  assumes "set ks \<subseteq> set (columns df)"
  shows "dropna df ks = Inr (df\<lparr>rows := filter (\<lambda>(i, r). row_complete (columns df) ks r) (rows df)\<rparr>)"
proof -
  from assms have "filter (\<lambda>k. k \<notin> set (columns df)) ks = []"
    by (auto simp: filter_empty_conv)
  then show ?thesis by (simp add: dropna_def)
qed

lemma index_dtype_with_string: "index_dtype (StrLabel s # ls) = ObjectDtype"
  by (simp add: index_dtype_def)

section \<open>Extraction\<close>

lemma dict_display_5:
  assumes "distinct [d, i, p, t, g]"
  shows "rename_label (dict_display (zip [d, i, p, t, g] (map StrLabel standard_names))) d = StrLabel ''Date''"
    and "rename_label (dict_display (zip [d, i, p, t, g] (map StrLabel standard_names))) i = StrLabel ''Invoice No''"
    and "rename_label (dict_display (zip [d, i, p, t, g] (map StrLabel standard_names))) p = StrLabel ''Party Name''"
    and "rename_label (dict_display (zip [d, i, p, t, g] (map StrLabel standard_names))) t = StrLabel ''Taxable Amount''"
    and "rename_label (dict_display (zip [d, i, p, t, g] (map StrLabel standard_names))) g = StrLabel ''GST Rate''"
  using assms by (auto simp: rename_label_def dict_display_def standard_names_def)

lemma renamed_in_standard_names:
  assumes "distinct [d, i, p, t, g]" and "k \<in> set [d, i, p, t, g]"
  shows "rename_label (dict_display (zip [d, i, p, t, g] (map StrLabel standard_names))) k
           \<in> set (map StrLabel standard_names)"
proof -
  from assms(2) consider "k = d" | "k = i" | "k = p" | "k = t" | "k = g" by auto
  then show ?thesis
    by cases (simp_all add: dict_display_5 [OF assms(1)], simp_all add: standard_names_def)
qed

lemma length_range1: "length (range1 n :: 'v cell list) = n"
  by (simp add: range1_def)

lemma map2_map_right: "map2 f xs (map g ys) = map2 (\<lambda>x y. f x (g y)) xs ys"
  by (simp add: zip_map2 case_prod_unfold comp_def)

lemma serial_label_fresh:
  assumes sub: "set [d, i, p, t, g] \<subseteq> set labels" and dist: "distinct [d, i, p, t, g]"
  shows "StrLabel ''S/N'' \<notin> set (map (rename_label (dict_display (zip [d, i, p, t, g] (map StrLabel standard_names))))
                        (select_labels labels [d, i, p, t, g]))"
proof
  let ?ren = "rename_label (dict_display (zip [d, i, p, t, g] (map StrLabel standard_names)))"
  assume "StrLabel ''S/N'' \<in> set (map ?ren (select_labels labels [d, i, p, t, g]))"
  then have "StrLabel ''S/N'' \<in> ?ren ` set (select_labels labels [d, i, p, t, g])" by (simp only: set_map)
  then obtain k where k: "k \<in> set (select_labels labels [d, i, p, t, g])" and eq: "StrLabel ''S/N'' = ?ren k"
    by (rule imageE)
  from k have "k \<in> set [d, i, p, t, g]" unfolding set_select_labels [OF sub] .
  from renamed_in_standard_names [OF dist this] have "StrLabel ''S/N'' \<in> set (map StrLabel standard_names)"
    unfolding eq [symmetric] .
  then show False by (simp add: standard_names_def)
qed

lemma extract_and_format_Inr:
  assumes fc: "fc ''Date'' = Some d" "fc ''Invoice No'' = Some i" "fc ''Party Name'' = Some p"
              "fc ''Taxable Amount'' = Some t" "fc ''GST Rate'' = Some g"
      and sub: "set [d, i, p, t, g] \<subseteq> set (columns (frames w a))"
      and dist: "distinct [d, i, p, t, g]"
  shows "extract_and_format repr w a fc =
     (w\<lparr>frames := (frames w)
           (next_ref w := extracted_frame (frames w a) [d, i, p, t, g],
            Suc (next_ref w) := final_frame repr (frames w a) [d, i, p, t, g]),
         next_ref := Suc (Suc (next_ref w))\<rparr>,
      Inr (Some (Suc (next_ref w))))"
proof -
  let ?df = "frames w a"
  let ?keys = "[d, i, p, t, g]"
  let ?sel_cols = "select_labels (columns ?df) ?keys"
  let ?ren = "rename_label (dict_display (zip ?keys (map StrLabel standard_names)))"
  let ?selected = "\<lparr>columns = ?sel_cols, columns_dtype = columns_dtype ?df,
                    rows = map (\<lambda>(ix, r). (ix, select_cells (columns ?df) ?keys r)) (rows ?df)\<rparr>"
  let ?kept = "extracted_frame ?df ?keys"
  let ?renamed = "\<lparr>columns = map ?ren ?sel_cols, columns_dtype = index_dtype (map ?ren ?sel_cols),
                   rows = rows ?kept\<rparr>"
  let ?formatted = "\<lparr>columns = map ?ren ?sel_cols, columns_dtype = index_dtype (map ?ren ?sel_cols),
                     rows = map (\<lambda>(ix, r). (ix, map2 (str_plus repr (StrLabel ''GST Rate'') ''%'') (map ?ren ?sel_cols) r))
                              (rows ?kept)\<rparr>"
  have look5: "lookups fc standard_names = Inr ?keys"
    by (simp add: standard_names_def fc)
  have look2: "lookups fc [''Party Name'', ''Taxable Amount''] = Inr [p, t]"
    by (simp add: fc)
  have sel: "getitem_list ?df ?keys = Inr ?selected"
    using sub by (rule getitem_list_Inr)
  have set_sel: "set ?sel_cols = set ?keys"
    using sub by (rule set_select_labels)
  have drop: "dropna ?selected [p, t] = Inr ?kept"
  proof -
    have "set [p, t] \<subseteq> set (columns ?selected)"
      using set_sel by simp
    from dropna_Inr [OF this] show ?thesis
      by (simp add: extracted_frame_def)
  qed
  have ren: "rename ?kept (dict_display (zip ?keys (map StrLabel standard_names))) = ?renamed"
    by (simp add: rename_def extracted_frame_def)
  have gst: "StrLabel ''GST Rate'' \<in> set (map ?ren ?sel_cols)"
  proof -
    have "g \<in> set ?sel_cols" unfolding set_sel by simp
    then have "?ren g \<in> set (map ?ren ?sel_cols)" unfolding set_map by (rule imageI)
    then show ?thesis by (simp only: dict_display_5 [OF dist])
  qed
  have fmt: "astype_str_plus repr ?renamed (StrLabel ''GST Rate'') ''%'' = Inr ?formatted"
    using gst by (simp add: astype_str_plus_def del: set_map)
  have sn: "StrLabel ''S/N'' \<notin> set (map ?ren ?sel_cols)"
    using sub dist by (rule serial_label_fresh)
  have ins: "insert0 ?formatted (StrLabel ''S/N'') (range1 (length (rows ?kept)))
               = Inr (final_frame repr ?df ?keys)"
    using sn by (simp add: insert0_def length_range1 final_frame_def zip_map2 case_prod_unfold
        comp_def index_dtype_with_string del: set_map)
  show ?thesis
    unfolding extract_and_format_def look5 look2
    by (simp add: sel new_frame_def set_frame_def drop ren fmt ins)
qed

section \<open>process_file as a whole\<close>

lemma col_map_aliases_nonempty: "\<forall>(n, ps) \<in> set col_map. [] \<notin> set ps"
  by (simp add: col_map_def)

lemma col_map_distinct: "distinct (map fst col_map)"
  by (simp add: col_map_def)

lemma col_map_nonempty: "col_map \<noteq> []"
  by (simp add: col_map_def)

lemma col_map_resolved:
  "(n, ps) \<in> set col_map \<Longrightarrow> resolved labels n = map_option StrLabel (first_present labels ps)"
  using map_of_is_SomeI [OF col_map_distinct] by (simp add: resolved_def)

lemma resolved_Some_iff:
  "(n, ps) \<in> set col_map \<Longrightarrow> (\<exists>x. resolved labels n = Some x) \<longleftrightarrow> has_alias labels ps"
  using first_present_None [of labels ps] by (auto simp: col_map_resolved)

lemma resolved_Some:
  assumes "(n, ps) \<in> set col_map" and "resolved labels n = Some d"
  shows "d \<in> StrLabel ` set ps \<and> d \<in> set labels"
proof -
  from assms obtain x where x: "first_present labels ps = Some x" and d: "d = StrLabel x"
    by (auto simp: col_map_resolved)
  from first_present_Some [OF x] d show ?thesis by simp
qed

lemma col_map_set:
  "set col_map = {(''Date'', [''Invoice Date'', ''Invoice date'']),
      (''Invoice No'', [''Invoice No.'', ''Invoice Number'', ''Voucher No.'']),
      (''Party Name'', [''Party Name'', ''Receiver Name'']),
      (''Taxable Amount'', [''Taxable value'', ''Taxable Value'']),
      (''GST Rate'', [''Rate''])}"
  by (simp add: col_map_def)

lemma resolved_names:
  assumes "resolved labels ''Date'' = Some d" "resolved labels ''Invoice No'' = Some i"
    "resolved labels ''Party Name'' = Some p" "resolved labels ''Taxable Amount'' = Some t"
    "resolved labels ''GST Rate'' = Some g"
  shows "set [d, i, p, t, g] \<subseteq> set labels" and "distinct [d, i, p, t, g]"
proof -
  have d: "d \<in> StrLabel ` set [''Invoice Date'', ''Invoice date''] \<and> d \<in> set labels"
    using _ assms(1) by (rule resolved_Some) (simp add: col_map_def)
  have i: "i \<in> StrLabel ` set [''Invoice No.'', ''Invoice Number'', ''Voucher No.''] \<and> i \<in> set labels"
    using _ assms(2) by (rule resolved_Some) (simp add: col_map_def)
  have p: "p \<in> StrLabel ` set [''Party Name'', ''Receiver Name''] \<and> p \<in> set labels"
    using _ assms(3) by (rule resolved_Some) (simp add: col_map_def)
  have t: "t \<in> StrLabel ` set [''Taxable value'', ''Taxable Value''] \<and> t \<in> set labels"
    using _ assms(4) by (rule resolved_Some) (simp add: col_map_def)
  have g: "g \<in> StrLabel ` set [''Rate''] \<and> g \<in> set labels"
    using _ assms(5) by (rule resolved_Some) (simp add: col_map_def)
  show "set [d, i, p, t, g] \<subseteq> set labels" using d i p t g by auto
  show "distinct [d, i, p, t, g]" using d i p t g by auto
qed

lemma resolve_col_map_Inr:
  assumes "resolve labels col_map Map.empty = Inr fc"
  shows "\<exists>d i p t g. resolved labels ''Date'' = Some d \<and> resolved labels ''Invoice No'' = Some i
            \<and> resolved labels ''Party Name'' = Some p \<and> resolved labels ''Taxable Amount'' = Some t
            \<and> resolved labels ''GST Rate'' = Some g"
    and "\<forall>(n, ps) \<in> set col_map. fc n = resolved labels n"
proof -
  from assms have all: "\<forall>(n, ps) \<in> set col_map. has_alias labels ps"
    using resolve_Inr_iff [OF col_map_aliases_nonempty, of labels Map.empty] by blast
  have "\<And>n ps. (n, ps) \<in> set col_map \<Longrightarrow> \<exists>x. resolved labels n = Some x"
    using all resolved_Some_iff by blast
  then show "\<exists>d i p t g. resolved labels ''Date'' = Some d \<and> resolved labels ''Invoice No'' = Some i
            \<and> resolved labels ''Party Name'' = Some p \<and> resolved labels ''Taxable Amount'' = Some t
            \<and> resolved labels ''GST Rate'' = Some g"
    unfolding col_map_set by (meson insertI1 insertI2)
  show "\<forall>(n, ps) \<in> set col_map. fc n = resolved labels n"
    using resolve_value [OF assms col_map_distinct] col_map_resolved by auto
qed

lemma resolve_col_map_resolved:
  assumes "resolved labels ''Date'' = Some d" "resolved labels ''Invoice No'' = Some i"
    "resolved labels ''Party Name'' = Some p" "resolved labels ''Taxable Amount'' = Some t"
    "resolved labels ''GST Rate'' = Some g"
  shows "\<exists>fc. resolve labels col_map Map.empty = Inr fc \<and> fc ''Date'' = Some d
           \<and> fc ''Invoice No'' = Some i \<and> fc ''Party Name'' = Some p
           \<and> fc ''Taxable Amount'' = Some t \<and> fc ''GST Rate'' = Some g"
proof -
  have "\<forall>(n, ps) \<in> set col_map. \<exists>x. resolved labels n = Some x"
    unfolding col_map_set using assms by simp
  then have "\<forall>(n, ps) \<in> set col_map. has_alias labels ps"
    using resolved_Some_iff by blast
  then obtain fc where fc: "resolve labels col_map Map.empty = Inr fc"
    using resolve_Inr_iff [OF col_map_aliases_nonempty, of labels Map.empty] by blast
  from resolve_col_map_Inr(2) [OF fc] have "\<And>n ps. (n, ps) \<in> set col_map \<Longrightarrow> fc n = resolved labels n"
    by blast
  then have "fc ''Date'' = Some d \<and> fc ''Invoice No'' = Some i \<and> fc ''Party Name'' = Some p
           \<and> fc ''Taxable Amount'' = Some t \<and> fc ''GST Rate'' = Some g"
    unfolding col_map_set using assms by (metis insertI1 insertI2)
  with fc show ?thesis by blast
qed

lemma process_file_refused:
  assumes "\<not> str_accepts (frames w a)"
  shows "process_file repr w (Some a) ft
           = (w, Inl (AttributeError ''Can only use .str accessor with string values!''))"
  by (simp add: process_file_def find_columns_refused [OF col_map_nonempty assms])

lemma process_file_Some:
  assumes "str_accepts (frames w a)"
  shows "process_file repr w (Some a) ft =
     (case resolve (str_strip (columns (frames w a))) col_map Map.empty of
        Inl n \<Rightarrow> (st_error (stripped_world w a) (missing_column_message ft n), Inr None)
      | Inr fc \<Rightarrow> extract_and_format repr (stripped_world w a) a fc)"
  by (simp add: process_file_def find_columns_resolve [OF col_map_nonempty assms] split: sum.splits)

lemma process_file_clean:
  assumes acc: "str_accepts (frames w a)"
    and res: "resolved (str_strip (columns (frames w a))) ''Date'' = Some d"
    "resolved (str_strip (columns (frames w a))) ''Invoice No'' = Some i"
    "resolved (str_strip (columns (frames w a))) ''Party Name'' = Some p"
    "resolved (str_strip (columns (frames w a))) ''Taxable Amount'' = Some t"
    "resolved (str_strip (columns (frames w a))) ''GST Rate'' = Some g"
  shows "process_file repr w (Some a) ft =
     ((stripped_world w a)\<lparr>frames := (frames (stripped_world w a))
           (next_ref w := extracted_frame (frames (stripped_world w a) a) [d, i, p, t, g],
            Suc (next_ref w) := final_frame repr (frames (stripped_world w a) a) [d, i, p, t, g]),
         next_ref := Suc (Suc (next_ref w))\<rparr>,
      Inr (Some (Suc (next_ref w))))"
proof -
  from resolve_col_map_resolved [OF res] obtain fc where
    fc: "resolve (str_strip (columns (frames w a))) col_map Map.empty = Inr fc"
    and vals: "fc ''Date'' = Some d" "fc ''Invoice No'' = Some i" "fc ''Party Name'' = Some p"
      "fc ''Taxable Amount'' = Some t" "fc ''GST Rate'' = Some g"
    by blast
  have sub: "set [d, i, p, t, g] \<subseteq> set (columns (frames (stripped_world w a) a))"
    unfolding columns_stripped_world using res by (rule resolved_names(1))
  have dist: "distinct [d, i, p, t, g]"
    using res by (rule resolved_names(2))
  show ?thesis
    unfolding process_file_Some [OF acc] fc
    by (simp add: extract_and_format_Inr [OF vals sub dist] next_ref_stripped_world)
qed

lemma process_file_missing:
  assumes "str_accepts (frames w a)"
    and "resolve (str_strip (columns (frames w a))) col_map Map.empty = Inl n"
  shows "process_file repr w (Some a) ft =
           (st_error (stripped_world w a) (missing_column_message ft n), Inr None)"
  unfolding process_file_Some [OF assms(1)] assms(2) by simp

section \<open>Column resolution\<close>

lemma found_accepted:
  assumes "snd (find_columns col_map a ft w Map.empty) = Inr x"
  shows "str_accepts (frames w a)"
proof (rule ccontr)
  assume "\<not> str_accepts (frames w a)"
  from find_columns_refused [OF col_map_nonempty this, of ft Map.empty] assms show False by simp
qed

lemma returned_accepted:
  assumes "snd (process_file repr w (Some a) ft) = Inr x"
  shows "str_accepts (frames w a)"
proof (rule ccontr)
  assume "\<not> str_accepts (frames w a)"
  from process_file_refused [OF this, of repr ft] assms show False by simp
qed

lemma found_iff_resolve:
  "snd (find_columns col_map a ft w Map.empty) = Inr (Some fc)
     \<longleftrightarrow> str_accepts (frames w a) \<and> resolve (str_strip (columns (frames w a))) col_map Map.empty = Inr fc"
proof (cases "str_accepts (frames w a)")
  case True
  show ?thesis
    by (simp add: find_columns_resolve [OF col_map_nonempty True] True split: sum.splits)
next
  case False
  show ?thesis
    by (simp add: find_columns_refused [OF col_map_nonempty False] False)
qed

lemma find_columns_Some:
  assumes "snd (find_columns col_map a ft w Map.empty) = Inr (Some fc)"
  shows "resolve (str_strip (columns (frames w a))) col_map Map.empty = Inr fc"
  using assms by (simp add: found_iff_resolve)

lemma process_file_succeeds_iff:
  assumes acc: "str_accepts (frames w a)"
  shows "(\<exists>r. snd (process_file repr w (Some a) ft) = Inr (Some r))
     \<longleftrightarrow> (\<forall>(n, ps) \<in> set col_map. has_alias (str_strip (columns (frames w a))) ps)"
proof (cases "resolve (str_strip (columns (frames w a))) col_map Map.empty")
  case (Inl n)
  then have "\<not> (\<forall>(n, ps) \<in> set col_map. has_alias (str_strip (columns (frames w a))) ps)"
    using resolve_Inr_iff [OF col_map_aliases_nonempty, of "str_strip (columns (frames w a))" Map.empty]
    by simp
  moreover have "snd (process_file repr w (Some a) ft) = Inr None"
    by (simp add: process_file_missing [OF acc Inl])
  ultimately show ?thesis by simp
next
  case (Inr fc)
  then have all: "\<forall>(n, ps) \<in> set col_map. has_alias (str_strip (columns (frames w a))) ps"
    using resolve_Inr_iff [OF col_map_aliases_nonempty, of "str_strip (columns (frames w a))" Map.empty]
    by blast
  from resolve_col_map_Inr(1) [OF Inr] obtain d i p t g where
    "resolved (str_strip (columns (frames w a))) ''Date'' = Some d"
    "resolved (str_strip (columns (frames w a))) ''Invoice No'' = Some i"
    "resolved (str_strip (columns (frames w a))) ''Party Name'' = Some p"
    "resolved (str_strip (columns (frames w a))) ''Taxable Amount'' = Some t"
    "resolved (str_strip (columns (frames w a))) ''GST Rate'' = Some g"
    by blast
  from process_file_clean [OF acc this] have "snd (process_file repr w (Some a) ft) = Inr (Some (Suc (next_ref w)))"
    by simp
  with all show ?thesis by simp
qed

lemma found_cols_first_match:
  assumes "snd (find_columns col_map a ft w Map.empty) = Inr (Some fc)" and "(n, ps) \<in> set col_map"
  shows "\<exists>k < length ps. fc n = Some (StrLabel (ps ! k))
           \<and> StrLabel (ps ! k) \<in> set (str_strip (columns (frames w a)))
           \<and> (\<forall>j < k. StrLabel (ps ! j) \<notin> set (str_strip (columns (frames w a))))"
proof -
  from assms(1) have res: "resolve (str_strip (columns (frames w a))) col_map Map.empty = Inr fc"
    by (rule find_columns_Some)
  from resolve_col_map_Inr(2) [OF res] assms(2)
  have fc: "fc n = map_option StrLabel (first_present (str_strip (columns (frames w a))) ps)"
    by (auto simp: col_map_resolved)
  from res have "has_alias (str_strip (columns (frames w a))) ps"
    using resolve_Inr_iff [OF col_map_aliases_nonempty, of "str_strip (columns (frames w a))" Map.empty]
      assms(2) by blast
  then obtain x where x: "first_present (str_strip (columns (frames w a))) ps = Some x"
    using first_present_None [of "str_strip (columns (frames w a))" ps] by (cases "first_present (str_strip (columns (frames w a))) ps") auto
  then have "\<exists>k < length ps. StrLabel (ps ! k) \<in> set (str_strip (columns (frames w a))) \<and> x = ps ! k
           \<and> (\<forall>j < k. StrLabel (ps ! j) \<notin> set (str_strip (columns (frames w a))))"
    by (simp add: first_present_def find_Some_iff)
  with fc x show ?thesis by auto
qed

lemma process_file_missing_column:
  assumes acc: "str_accepts (frames w a)"
    and "\<not> (\<forall>(n, ps) \<in> set col_map. has_alias (str_strip (columns (frames w a))) ps)"
  shows "\<exists>pre n ps post. col_map = pre @ (n, ps) # post
           \<and> (\<forall>(n', ps') \<in> set pre. has_alias (str_strip (columns (frames w a))) ps')
           \<and> \<not> has_alias (str_strip (columns (frames w a))) ps
           \<and> process_file repr w (Some a) ft =
               (st_error (stripped_world w a) (missing_column_message ft n), Inr None)"
proof -
  from assms(2) obtain n where n: "resolve (str_strip (columns (frames w a))) col_map Map.empty = Inl n"
    using resolve_Inr_iff [OF col_map_aliases_nonempty, of "str_strip (columns (frames w a))" Map.empty]
    by (cases "resolve (str_strip (columns (frames w a))) col_map Map.empty") auto
  from resolve_Inl [OF n col_map_aliases_nonempty] obtain pre ps post where
    "col_map = pre @ (n, ps) # post"
    "\<forall>(n', ps') \<in> set pre. has_alias (str_strip (columns (frames w a))) ps'"
    "\<not> has_alias (str_strip (columns (frames w a))) ps"
    by (elim exE conjE)
  with process_file_missing [OF acc n, of repr ft] show ?thesis
    by (intro exI [of _ pre] exI [of _ n] exI [of _ ps] exI [of _ post]) simp
qed

text \<open>
  Where \<^verbatim>\<open>.str\<close> accepts the column index of the DataFrame \<open>a\<close> (it holds a string),
  column resolution is as follows. (1) A table is returned exactly when every standard
  name of \<open>col_map\<close> has one of its possible names among the stripped labels. (2) What the
  loop records for a standard name is the first of its possible names, in the order of the
  list, that is among the stripped labels. (3) Otherwise, for the first standard name of
  \<open>col_map\<close> without a possible name among the labels, \<^verbatim>\<open>process_file\<close> shows one more
  error, which carries the file type and that standard name, returns None and creates no
  DataFrame.
\<close>

lemma column_resolution_where_str_accepts:
  assumes acc: "str_accepts (frames w a)"
  shows "((\<exists>r. snd (process_file repr w (Some a) ft) = Inr (Some r)) \<longleftrightarrow>
      (\<forall>(n, ps) \<in> set col_map. \<exists>col \<in> set ps. StrLabel col \<in> set (str_strip (columns (frames w a)))))
   \<and> (\<forall>fc n ps. snd (find_columns col_map a ft w Map.empty) = Inr (Some fc) \<and> (n, ps) \<in> set col_map \<longrightarrow>
         (\<exists>k < length ps. fc n = Some (StrLabel (ps ! k))
            \<and> StrLabel (ps ! k) \<in> set (str_strip (columns (frames w a)))
            \<and> (\<forall>j < k. StrLabel (ps ! j) \<notin> set (str_strip (columns (frames w a))))))
   \<and> (\<not> (\<forall>(n, ps) \<in> set col_map. \<exists>col \<in> set ps. StrLabel col \<in> set (str_strip (columns (frames w a)))) \<longrightarrow>
         (\<exists>pre n ps post. col_map = pre @ (n, ps) # post
            \<and> (\<forall>(n', ps') \<in> set pre. \<exists>col \<in> set ps'. StrLabel col \<in> set (str_strip (columns (frames w a))))
            \<and> (\<forall>col \<in> set ps. StrLabel col \<notin> set (str_strip (columns (frames w a))))
            \<and> snd (process_file repr w (Some a) ft) = Inr None
            \<and> ui (fst (process_file repr w (Some a) ft)) =
                  ui w @ [StError (''Error in '' @ ft @ '' file: Could not find the '' @ [CHR 0x27]
                            @ n @ [CHR 0x27] @ '' column. Please check the file.'')]
            \<and> next_ref (fst (process_file repr w (Some a) ft)) = next_ref w))"
proof (intro conjI allI impI)
  show "(\<exists>r. snd (process_file repr w (Some a) ft) = Inr (Some r)) \<longleftrightarrow>
      (\<forall>(n, ps) \<in> set col_map. \<exists>col \<in> set ps. StrLabel col \<in> set (str_strip (columns (frames w a))))"
    using process_file_succeeds_iff [OF acc, of repr ft] by (simp add: has_alias_def)
next
  fix fc n ps
  assume "snd (find_columns col_map a ft w Map.empty) = Inr (Some fc) \<and> (n, ps) \<in> set col_map"
  then show "\<exists>k < length ps. fc n = Some (StrLabel (ps ! k))
            \<and> StrLabel (ps ! k) \<in> set (str_strip (columns (frames w a)))
            \<and> (\<forall>j < k. StrLabel (ps ! j) \<notin> set (str_strip (columns (frames w a))))"
    using found_cols_first_match [of a ft w fc n ps] by blast
next
  assume "\<not> (\<forall>(n, ps) \<in> set col_map. \<exists>col \<in> set ps. StrLabel col \<in> set (str_strip (columns (frames w a))))"
  then have "\<not> (\<forall>(n, ps) \<in> set col_map. has_alias (str_strip (columns (frames w a))) ps)"
    by (simp add: has_alias_def)
  from process_file_missing_column [OF acc this, of repr ft] obtain pre n ps post where
    split: "col_map = pre @ (n, ps) # post"
    and before: "\<forall>(n', ps') \<in> set pre. has_alias (str_strip (columns (frames w a))) ps'"
    and none: "\<not> has_alias (str_strip (columns (frames w a))) ps"
    and res: "process_file repr w (Some a) ft =
               (st_error (stripped_world w a) (missing_column_message ft n), Inr None)"
    by (elim exE conjE)
  show "\<exists>pre n ps post. col_map = pre @ (n, ps) # post
            \<and> (\<forall>(n', ps') \<in> set pre. \<exists>col \<in> set ps'. StrLabel col \<in> set (str_strip (columns (frames w a))))
            \<and> (\<forall>col \<in> set ps. StrLabel col \<notin> set (str_strip (columns (frames w a))))
            \<and> snd (process_file repr w (Some a) ft) = Inr None
            \<and> ui (fst (process_file repr w (Some a) ft)) =
                  ui w @ [StError (''Error in '' @ ft @ '' file: Could not find the '' @ [CHR 0x27]
                            @ n @ [CHR 0x27] @ '' column. Please check the file.'')]
            \<and> next_ref (fst (process_file repr w (Some a) ft)) = next_ref w"
    using split before none
    by (intro exI [of _ pre] exI [of _ n] exI [of _ ps] exI [of _ post])
       (simp add: res has_alias_def st_error_def ui_stripped_world next_ref_stripped_world
          missing_column_message_def)
qed

text \<open>
  Where \<^verbatim>\<open>.str\<close> does not accept the column index, no possible name is among the labels,
  and \<^verbatim>\<open>process_file\<close> neither shows an error nor returns: it raises AttributeError, and
  the store and the page are as before.
\<close>

lemma refused_has_no_alias:
  assumes "\<not> str_accepts df" and "columns_dtype df = ObjectDtype"
  shows "\<not> has_alias (columns df) ps"
  using assms by (auto simp: str_accepts_def has_alias_def list_ex_iff)

lemma process_file_raises_iff:
  "(\<exists>e. snd (process_file repr w (Some a) ft) = Inl e) \<longleftrightarrow> \<not> str_accepts (frames w a)"
proof (cases "str_accepts (frames w a)")
  case False
  then show ?thesis by (simp add: process_file_refused)
next
  case True
  show ?thesis
  proof (cases "resolve (str_strip (columns (frames w a))) col_map Map.empty")
    case (Inl n)
    show ?thesis by (simp add: process_file_missing [OF True Inl] True)
  next
    case (Inr fc)
    from resolve_col_map_Inr(1) [OF Inr] obtain d i p t g where
      "resolved (str_strip (columns (frames w a))) ''Date'' = Some d"
      "resolved (str_strip (columns (frames w a))) ''Invoice No'' = Some i"
      "resolved (str_strip (columns (frames w a))) ''Party Name'' = Some p"
      "resolved (str_strip (columns (frames w a))) ''Taxable Amount'' = Some t"
      "resolved (str_strip (columns (frames w a))) ''GST Rate'' = Some g"
      by blast
    from process_file_clean [OF True this, of repr ft] show ?thesis by (simp add: True)
  qed
qed

lemmas eval_simps =
  py_strip_def py_isspace_def str_strip_def strip_columns_def str_accepts_def set_frame_def
  new_frame_def st_error_def index_dtype_def empty_frame_def
  first_present_def missing_column_message_def col_map_def standard_names_def dict_display_def
  extract_and_format_def process_file_def getitem_list_def select_labels_def select_cells_def
  cells_under_def dropna_def row_complete_def rename_def rename_label_def astype_str_plus_def
  str_plus_def insert0_def range1_def

lemma example_labels:
  "str_strip (columns (frames example_world 0))
     = [StrLabel ''Invoice Date'', StrLabel ''Voucher No.'', StrLabel ''Receiver Name'',
        StrLabel ''Taxable value'', StrLabel ''Rate'']"
  by (simp add: example_world_def example_frame_def eval_simps)

lemma example_result:
  "snd (process_file (\<lambda>_. ''x'') example_world (Some 0) ''Purchase'') = Inr (Some 2)"
  by (simp add: example_world_def example_frame_def eval_simps)

lemma example_clean:
  "frames (fst (process_file (\<lambda>_. ''x'') example_world (Some 0) ''Purchase'')) 2 =
     \<lparr>columns = [StrLabel ''S/N'', StrLabel ''Date'', StrLabel ''Invoice No'', StrLabel ''Party Name'',
                 StrLabel ''Taxable Amount'', StrLabel ''GST Rate''],
      columns_dtype = ObjectDtype,
      rows = [(0, [IntCell 1, StrCell ''2024-01-01'', StrCell ''INV001'', StrCell ''Acme Co'', IntCell 1000, StrCell ''18%'']),
              (2, [IntCell 2, NaN, StrCell ''INV003'', StrCell ''Bolt Ltd'', IntCell 250, StrCell ''nan%'']),
              (3, [IntCell 3, StrCell ''2024-01-04'', NaN, StrCell ''Cog Inc'', IntCell 75, StrCell ''18%''])]\<rparr>"
  by (simp add: example_world_def example_frame_def eval_simps str_int_def str_nat.simps upt_rec)


lemma column_resolution_examples:
  "list_all (\<lambda>(n, ps). list_ex (\<lambda>col. StrLabel col \<in> set (str_strip (columns (frames example_world 0)))) ps) col_map
   \<and> (\<exists>r. snd (process_file (\<lambda>_. ''x'') example_world (Some 0) ''Purchase'') = Inr (Some r))
   \<and> (\<exists>fc. snd (find_columns col_map 0 ''Purchase'' example_world Map.empty) = Inr (Some fc)
         \<and> fc ''Party Name'' = Some (StrLabel ''Receiver Name''))
   \<and> \<not> list_all (\<lambda>(n, ps). list_ex (\<lambda>col. StrLabel col \<in> set (str_strip (columns (frames headless_world 0)))) ps) col_map
   \<and> snd (process_file (\<lambda>_. ''x'') headless_world (Some 0) ''Sales'') = Inr None"
proof -
  have acc1: "str_accepts (frames example_world 0)"
    by (simp add: example_world_def example_frame_def str_accepts_def)
  have acc2: "str_accepts (frames headless_world 0)"
    by (simp add: headless_world_def str_accepts_def)
  have ok: "\<forall>(n, ps) \<in> set col_map. \<exists>col \<in> set ps. StrLabel col \<in> set (str_strip (columns (frames example_world 0)))"
    by (simp add: example_labels) (simp add: col_map_def)
  have found: "\<exists>fc. snd (find_columns col_map 0 ''Purchase'' example_world Map.empty) = Inr (Some fc)"
    by (simp add: example_world_def example_frame_def eval_simps)
  have mem: "(''Party Name'', [''Party Name'', ''Receiver Name'']) \<in> set col_map"
    by (simp add: col_map_def)
  have bad: "\<not> (\<forall>(n, ps) \<in> set col_map. \<exists>col \<in> set ps. StrLabel col \<in> set (str_strip (columns (frames headless_world 0))))"
    by (simp add: headless_world_def eval_simps)
  note thm1 = column_resolution_where_str_accepts [OF acc1, of "\<lambda>_. ''x''" "''Purchase''"]
  note thm2 = column_resolution_where_str_accepts [OF acc2, of "\<lambda>_. ''x''" "''Sales''"]
  from thm1 ok have success: "\<exists>r. snd (process_file (\<lambda>_. ''x'') example_world (Some 0) ''Purchase'') = Inr (Some r)"
    by blast
  from found obtain fc where fc: "snd (find_columns col_map 0 ''Purchase'' example_world Map.empty) = Inr (Some fc)"
    by blast
  from thm1 fc mem obtain k where "k < length [''Party Name'', ''Receiver Name'']"
    and "fc ''Party Name'' = Some (StrLabel ([''Party Name'', ''Receiver Name''] ! k))"
    and "StrLabel ([''Party Name'', ''Receiver Name''] ! k) \<in> set (str_strip (columns (frames example_world 0)))"
    by blast
  then have "fc ''Party Name'' = Some (StrLabel ''Receiver Name'')"
    by (cases k) (simp_all add: example_labels)
  with fc have first: "\<exists>fc. snd (find_columns col_map 0 ''Purchase'' example_world Map.empty) = Inr (Some fc)
         \<and> fc ''Party Name'' = Some (StrLabel ''Receiver Name'')"
    by blast
  from thm2 bad have none: "snd (process_file (\<lambda>_. ''x'') headless_world (Some 0) ''Sales'') = Inr None"
    by blast
  from ok have all: "list_all (\<lambda>(n, ps). list_ex (\<lambda>col. StrLabel col \<in> set (str_strip (columns (frames example_world 0)))) ps) col_map"
    by (simp add: list_all_iff list_ex_iff case_prod_unfold)
  from bad have nall: "\<not> list_all (\<lambda>(n, ps). list_ex (\<lambda>col. StrLabel col \<in> set (str_strip (columns (frames headless_world 0)))) ps) col_map"
    by (simp add: list_all_iff list_ex_iff case_prod_unfold)
  from all success first nall none show ?thesis by (intro conjI)
qed

text \<open>
  C1. A table whose column index holds no string: the header row read from the sheet holds
  the years 2021 to 2025. None of the possible names of Date is among its labels, so
  resolution fails; but \<^verbatim>\<open>process_file\<close> shows no error naming the file type and Date: the
  first statement of its loop raises AttributeError, which nothing catches, and the page
  shows nothing. So it is for the empty table that pandas 2 reads from a sheet with fewer
  than nine rows. Pressed with such a Purchase file, the button ends with the exception:
  the Sales table is not processed, and no closing message is shown.
\<close>

theorem header_without_text_raises:
  "first_present (columns (frames numeric_header_world 0)) [''Invoice Date'', ''Invoice date''] = None
   \<and> snd (process_file (\<lambda>_. ''x'') numeric_header_world (Some 0) ''Purchase'')
       = Inl (AttributeError ''Can only use .str accessor with string values!'')
   \<and> ui (fst (process_file (\<lambda>_. ''x'') numeric_header_world (Some 0) ''Purchase'')) = []
   \<and> snd (process_file (\<lambda>_. ''x'') short_sheet_world (Some 0) ''Purchase'')
       = Inl (AttributeError ''Can only use .str accessor with string values!'')
   \<and> ui (fst (process_file (\<lambda>_. ''x'') short_sheet_world (Some 0) ''Purchase'')) = []
   \<and> snd (button_pressed numeric_readers (\<lambda>_. ''x'') empty_world
            (Some \<lparr>name = ''purchase.xlsx'', content = ()\<rparr>) (Some \<lparr>name = ''sales.xlsx'', content = ()\<rparr>))
       = Inl (AttributeError ''Can only use .str accessor with string values!'')
   \<and> ui (fst (button_pressed numeric_readers (\<lambda>_. ''x'') empty_world
            (Some \<lparr>name = ''purchase.xlsx'', content = ()\<rparr>) (Some \<lparr>name = ''sales.xlsx'', content = ()\<rparr>)))
       = []"
  by (simp add: numeric_header_world_def numeric_header_frame_def short_sheet_world_def
      short_sheet_frame_def numeric_readers_def empty_world_def button_pressed_def load_data_def
      endswith_def eval_simps)

section \<open>The clean table\<close>

lemma row_complete_lacks:
  "row_complete labels [p, t] r \<longleftrightarrow> \<not> lacks labels p r \<and> \<not> lacks labels t r"
  by (simp add: row_complete_def lacks_def list_all_iff list_ex_iff)

lemma wf_frame_length:
  "wf_frame df \<Longrightarrow> (ix, r) \<in> set (rows df) \<Longrightarrow> length (columns df) = length r"
  by (auto simp: wf_frame_def list_all_iff)

lemma extracted_frame_rows:
  assumes wf: "wf_frame df" and dist: "distinct [d, i, p, t, g]"
  shows "rows (extracted_frame df [d, i, p, t, g])
         = map (\<lambda>(ix, r). (ix, select_cells (columns df) [d, i, p, t, g] r)) (survivors df p t)"
proof -
  have sub: "set [p, t] \<subseteq> set [d, i, p, t, g]" by simp
  have "filter ((\<lambda>(ix, r). row_complete (select_labels (columns df) [d, i, p, t, g]) [p, t] r)
            \<circ> (\<lambda>(ix, r). (ix, select_cells (columns df) [d, i, p, t, g] r))) (rows df)
        = filter (\<lambda>(ix, r). \<not> lacks (columns df) p r \<and> \<not> lacks (columns df) t r) (rows df)"
  proof (rule filter_cong [OF refl])
    fix x assume x: "x \<in> set (rows df)"
    obtain ix r where xr: "x = (ix, r)" by (cases x)
    from wf_frame_length [OF wf] x have len: "length (columns df) = length r"
      unfolding xr .
    show "((\<lambda>(ix, r). row_complete (select_labels (columns df) [d, i, p, t, g]) [p, t] r)
            \<circ> (\<lambda>(ix, r). (ix, select_cells (columns df) [d, i, p, t, g] r))) x
          = (case x of (ix, r) \<Rightarrow> \<not> lacks (columns df) p r \<and> \<not> lacks (columns df) t r)"
      unfolding xr comp_def case_prod_conv row_complete_selected [OF len dist sub]
      by (rule row_complete_lacks)
  qed
  then show ?thesis
    by (simp add: extracted_frame_def filter_map survivors_def)
qed

lemma str_plus_same: "str_plus repr k t k = (\<lambda>c. StrCell (py_str repr c @ t))"
  by (rule ext) (simp add: str_plus_def)

lemma str_plus_other: "l \<noteq> k \<Longrightarrow> str_plus repr k t l = (\<lambda>c. c)"
  by (rule ext) (simp add: str_plus_def)

lemma formatted_row:
  assumes len: "length labels = length r" and dist: "distinct [d, i, p, t, g]"
  shows "map2 (str_plus repr (StrLabel ''GST Rate'') ''%'')
           (map (rename_label (dict_display (zip [d, i, p, t, g] (map StrLabel standard_names))))
              (select_labels labels [d, i, p, t, g]))
           (select_cells labels [d, i, p, t, g] r)
         = clean_cells repr labels [d, i, p, t, g] r"
  unfolding map2_selected [OF len]
  by (simp add: dict_display_5 [OF dist] clean_cells_def str_plus_same str_plus_other)

lemma survivors_subset: "x \<in> set (survivors df p t) \<Longrightarrow> x \<in> set (rows df)"
  by (simp add: survivors_def)

lemma final_frame_rows:
  fixes df :: "'v dataframe" and repr :: "'v \<Rightarrow> string"
  assumes wf: "wf_frame df" and dist: "distinct [d, i, p, t, g]"
  shows "rows (final_frame repr df [d, i, p, t, g])
         = map2 (\<lambda>v (ix, r). (ix, v # clean_cells repr (columns df) [d, i, p, t, g] r))
             (range1 (length (survivors df p t))) (survivors df p t)"
proof -
  define F where "F = (\<lambda>r. map2 (str_plus repr (StrLabel ''GST Rate'') ''%'')
           (map (rename_label (dict_display (zip [d, i, p, t, g] (map StrLabel standard_names))))
              (select_labels (columns df) [d, i, p, t, g])) r)"
  have "map (\<lambda>x. (fst (snd x), fst x # F (select_cells (columns df) [d, i, p, t, g] (snd (snd x)))))
          (zip (range1 (length (survivors df p t)) :: 'v cell list) (survivors df p t))
        = map (\<lambda>x. (fst (snd x), fst x # clean_cells repr (columns df) [d, i, p, t, g] (snd (snd x))))
          (zip (range1 (length (survivors df p t))) (survivors df p t))"
  proof (rule map_cong [OF refl])
    fix x assume x: "x \<in> set (zip (range1 (length (survivors df p t)) :: 'v cell list) (survivors df p t))"
    obtain v ix r where xr: "x = (v, ix, r)" by (cases x)
    from x have "(ix, r) \<in> set (survivors df p t)" unfolding xr by (rule set_zip_rightD)
    then have "(ix, r) \<in> set (rows df)" by (rule survivors_subset)
    from wf_frame_length [OF wf this] have len: "length (columns df) = length r" .
    show "(fst (snd x), fst x # F (select_cells (columns df) [d, i, p, t, g] (snd (snd x))))
          = (fst (snd x), fst x # clean_cells repr (columns df) [d, i, p, t, g] (snd (snd x)))"
      unfolding xr F_def by (simp only: fst_conv snd_conv formatted_row [OF len dist])
  qed
  then show ?thesis
    by (simp add: final_frame_def extracted_frame_rows [OF wf dist] zip_map2 case_prod_unfold comp_def
        F_def)
qed

lemma map_filter_eq_const:
  "f k = c \<Longrightarrow> map f (filter (\<lambda>l. l = k) labels) = map (\<lambda>_. c) (filter (\<lambda>l. l = k) labels)"
  by (induction labels) auto

lemma final_frame_columns:
  assumes dist: "distinct [d, i, p, t, g]"
  shows "columns (final_frame repr df [d, i, p, t, g])
         = StrLabel ''S/N'' # map (\<lambda>_. StrLabel ''Date'') (filter (\<lambda>l. l = d) (columns df))
             @ map (\<lambda>_. StrLabel ''Invoice No'') (filter (\<lambda>l. l = i) (columns df))
             @ map (\<lambda>_. StrLabel ''Party Name'') (filter (\<lambda>l. l = p) (columns df))
             @ map (\<lambda>_. StrLabel ''Taxable Amount'') (filter (\<lambda>l. l = t) (columns df))
             @ map (\<lambda>_. StrLabel ''GST Rate'') (filter (\<lambda>l. l = g) (columns df))"
proof -
  let ?ren = "rename_label (dict_display (zip [d, i, p, t, g] (map StrLabel standard_names)))"
  have "map ?ren (filter (\<lambda>l. l = d) (columns df)) = map (\<lambda>_. StrLabel ''Date'') (filter (\<lambda>l. l = d) (columns df))"
    and "map ?ren (filter (\<lambda>l. l = i) (columns df)) = map (\<lambda>_. StrLabel ''Invoice No'') (filter (\<lambda>l. l = i) (columns df))"
    and "map ?ren (filter (\<lambda>l. l = p) (columns df)) = map (\<lambda>_. StrLabel ''Party Name'') (filter (\<lambda>l. l = p) (columns df))"
    and "map ?ren (filter (\<lambda>l. l = t) (columns df)) = map (\<lambda>_. StrLabel ''Taxable Amount'') (filter (\<lambda>l. l = t) (columns df))"
    and "map ?ren (filter (\<lambda>l. l = g) (columns df)) = map (\<lambda>_. StrLabel ''GST Rate'') (filter (\<lambda>l. l = g) (columns df))"
    by (rule map_filter_eq_const, simp add: dict_display_5 [OF dist])+
  then show ?thesis
    by (simp add: final_frame_def select_labels_def)
qed

lemma cells_under_Cons:
  "cells_under (l # ls) k (c # r) = (if l = k then c # cells_under ls k r else cells_under ls k r)"
  by (simp add: cells_under_def)

lemma cells_under_append:
  "length ls1 = length r1 \<Longrightarrow>
   cells_under (ls1 @ ls2) k (r1 @ r2) = cells_under ls1 k r1 @ cells_under ls2 k r2"
  by (simp add: cells_under_def)

lemma cells_under_const:
  "length xs = length r \<Longrightarrow> cells_under (map (\<lambda>_. c) xs) k r = (if c = k then r else [])"
proof (induction xs arbitrary: r)
  case Nil
  then show ?case by (simp add: cells_under_def)
next
  case (Cons x xs)
  from Cons.prems obtain y ys where r: "r = y # ys" by (cases r) auto
  with Cons.prems have "length xs = length ys" by simp
  from Cons.IH [OF this] show ?case by (cases "c = k") (simp_all add: r cells_under_Cons)
qed

lemma cells_under_absent: "k \<notin> set ls \<Longrightarrow> cells_under ls k r = []"
  by (auto simp: cells_under_def filter_empty_conv dest: set_zip_leftD)

lemma cells_under_final:
  assumes len: "length labels = length r" and dist: "distinct [d, i, p, t, g]"
  shows "cells_under
           (StrLabel ''S/N'' # map (\<lambda>_. StrLabel ''Date'') (filter (\<lambda>l. l = d) labels)
             @ map (\<lambda>_. StrLabel ''Invoice No'') (filter (\<lambda>l. l = i) labels)
             @ map (\<lambda>_. StrLabel ''Party Name'') (filter (\<lambda>l. l = p) labels)
             @ map (\<lambda>_. StrLabel ''Taxable Amount'') (filter (\<lambda>l. l = t) labels)
             @ map (\<lambda>_. StrLabel ''GST Rate'') (filter (\<lambda>l. l = g) labels))
           k (v # clean_cells repr labels [d, i, p, t, g] r)
         = (if k = StrLabel ''S/N'' then [v] else [])
           @ (if k = StrLabel ''Date'' then cells_under labels d r else [])
           @ (if k = StrLabel ''Invoice No'' then cells_under labels i r else [])
           @ (if k = StrLabel ''Party Name'' then cells_under labels p r else [])
           @ (if k = StrLabel ''Taxable Amount'' then cells_under labels t r else [])
           @ (if k = StrLabel ''GST Rate'' then map (\<lambda>c. StrCell (py_str repr c @ ''%'')) (cells_under labels g r) else [])"
proof -
  note l = length_cells_under [OF len, symmetric]
  have 1: "\<And>c x r'. cells_under (map (\<lambda>_. c) (filter (\<lambda>l. l = x) labels)) k (cells_under labels x r)
            = (if c = k then cells_under labels x r else [])"
    by (rule cells_under_const) (simp add: l)
  have 2: "\<And>c x. cells_under (map (\<lambda>_. c) (filter (\<lambda>l. l = x) labels)) k
              (map (\<lambda>c. StrCell (py_str repr c @ ''%'')) (cells_under labels x r))
            = (if c = k then map (\<lambda>c. StrCell (py_str repr c @ ''%'')) (cells_under labels x r) else [])"
    by (rule cells_under_const) (simp add: l)
  have "cells_under
           (map (\<lambda>_. StrLabel ''Date'') (filter (\<lambda>l. l = d) labels)
             @ map (\<lambda>_. StrLabel ''Invoice No'') (filter (\<lambda>l. l = i) labels)
             @ map (\<lambda>_. StrLabel ''Party Name'') (filter (\<lambda>l. l = p) labels)
             @ map (\<lambda>_. StrLabel ''Taxable Amount'') (filter (\<lambda>l. l = t) labels)
             @ map (\<lambda>_. StrLabel ''GST Rate'') (filter (\<lambda>l. l = g) labels))
           k (cells_under labels d r @ cells_under labels i r @ cells_under labels p r
                @ cells_under labels t r @ map (\<lambda>c. StrCell (py_str repr c @ ''%'')) (cells_under labels g r))
        = (if k = StrLabel ''Date'' then cells_under labels d r else [])
           @ (if k = StrLabel ''Invoice No'' then cells_under labels i r else [])
           @ (if k = StrLabel ''Party Name'' then cells_under labels p r else [])
           @ (if k = StrLabel ''Taxable Amount'' then cells_under labels t r else [])
           @ (if k = StrLabel ''GST Rate'' then map (\<lambda>c. StrCell (py_str repr c @ ''%'')) (cells_under labels g r) else [])"
    by (simp only: cells_under_append l length_map 1 2)
       (simp add: eq_commute)
  then show ?thesis
    by (simp add: cells_under_Cons clean_cells_def)
qed

lemma found_cols_resolved:
  assumes "snd (find_columns col_map a ft w Map.empty) = Inr (Some fc)"
  shows "fc ''Date'' = resolved (str_strip (columns (frames w a))) ''Date''"
    and "fc ''Invoice No'' = resolved (str_strip (columns (frames w a))) ''Invoice No''"
    and "fc ''Party Name'' = resolved (str_strip (columns (frames w a))) ''Party Name''"
    and "fc ''Taxable Amount'' = resolved (str_strip (columns (frames w a))) ''Taxable Amount''"
    and "fc ''GST Rate'' = resolved (str_strip (columns (frames w a))) ''GST Rate''"
  using resolve_col_map_Inr(2) [OF find_columns_Some [OF assms]]
  unfolding col_map_set by simp_all

lemma found_cols_total:
  assumes "snd (find_columns col_map a ft w Map.empty) = Inr (Some fc)"
  shows "\<exists>d i p t g. fc ''Date'' = Some d \<and> fc ''Invoice No'' = Some i \<and> fc ''Party Name'' = Some p
           \<and> fc ''Taxable Amount'' = Some t \<and> fc ''GST Rate'' = Some g"
  using resolve_col_map_Inr(1) [OF find_columns_Some [OF assms]]
  unfolding found_cols_resolved [OF assms] .

lemma process_file_success:
  assumes found: "snd (find_columns col_map a ft w Map.empty) = Inr (Some fc)"
    and vals: "fc ''Date'' = Some d" "fc ''Invoice No'' = Some i" "fc ''Party Name'' = Some p"
      "fc ''Taxable Amount'' = Some t" "fc ''GST Rate'' = Some g"
  shows "process_file repr w (Some a) ft =
     ((stripped_world w a)\<lparr>frames := (frames (stripped_world w a))
           (next_ref w := extracted_frame (stripped (frames w a)) [d, i, p, t, g],
            Suc (next_ref w) := final_frame repr (stripped (frames w a)) [d, i, p, t, g]),
         next_ref := Suc (Suc (next_ref w))\<rparr>,
      Inr (Some (Suc (next_ref w))))"
    and "distinct [d, i, p, t, g]"
proof -
  note r = vals [unfolded found_cols_resolved [OF found]]
  note acc = found_accepted [OF found]
  show "process_file repr w (Some a) ft =
     ((stripped_world w a)\<lparr>frames := (frames (stripped_world w a))
           (next_ref w := extracted_frame (stripped (frames w a)) [d, i, p, t, g],
            Suc (next_ref w) := final_frame repr (stripped (frames w a)) [d, i, p, t, g]),
         next_ref := Suc (Suc (next_ref w))\<rparr>,
      Inr (Some (Suc (next_ref w))))"
    using process_file_clean [OF acc r, of repr ft] by (simp only: frames_stripped_world_same)
  show "distinct [d, i, p, t, g]" using r by (rule resolved_names(2))
qed




lemma example_wf: "wf_frame (frames example_world 0)"
  by (simp add: example_world_def example_frame_def wf_frame_def)

lemma example_found:
  "\<exists>fc. snd (find_columns col_map 0 ''Purchase'' example_world Map.empty) = Inr (Some fc)
     \<and> fc ''Party Name'' = Some (StrLabel ''Receiver Name'')
     \<and> fc ''Taxable Amount'' = Some (StrLabel ''Taxable value'')
     \<and> fc ''GST Rate'' = Some (StrLabel ''Rate'')"
  by (simp add: example_world_def example_frame_def eval_simps)

lemma example_rows:
  "rows (frames example_world 0) =
     [(0, [StrCell ''2024-01-01'', StrCell ''INV001'', StrCell ''Acme Co'', IntCell 1000, IntCell 18]),
      (1, [StrCell ''2024-01-02'', StrCell ''INV002'', NaN, IntCell 500, IntCell 12]),
      (2, [NaN, StrCell ''INV003'', StrCell ''Bolt Ltd'', IntCell 250, NaN]),
      (3, [StrCell ''2024-01-04'', NaN, StrCell ''Cog Inc'', IntCell 75, StrCell ''18'']),
      (4, [StrCell ''2024-01-05'', StrCell ''INV005'', StrCell ''Dyn plc'', NaN, IntCell 5])]"
  by (simp add: example_world_def example_frame_def)


section \<open>What process_file returns\<close>

lemma process_file_returns:
  assumes "process_file repr w (Some a) ft = (w', Inr (Some r))"
  shows "\<exists>fc d i p t g. snd (find_columns col_map a ft w Map.empty) = Inr (Some fc)
           \<and> fc ''Date'' = Some d \<and> fc ''Invoice No'' = Some i \<and> fc ''Party Name'' = Some p
           \<and> fc ''Taxable Amount'' = Some t \<and> fc ''GST Rate'' = Some g"
proof (cases "resolve (str_strip (columns (frames w a))) col_map Map.empty")
  case (Inl n)
  from assms have "str_accepts (frames w a)" by (intro returned_accepted [of repr w a ft]) simp
  from process_file_missing [OF this Inl, of repr ft] assms show ?thesis by simp
next
  case (Inr fc)
  from assms have "str_accepts (frames w a)" by (intro returned_accepted [of repr w a ft]) simp
  with Inr have found: "snd (find_columns col_map a ft w Map.empty) = Inr (Some fc)"
    by (simp add: found_iff_resolve)
  from found_cols_total [OF found] found show ?thesis by blast
qed

lemma map_numbered_right:
  assumes "length vs = length xs" and "\<And>v x. x \<in> set xs \<Longrightarrow> G (F v x) = H x"
  shows "map G (map2 F vs xs) = map H xs"
  using assms by (induction vs xs rule: list_induct2) simp_all

lemma map_numbered_left:
  assumes "length vs = length xs" and "\<And>v x. G (F v x) = H v"
  shows "map G (map2 F vs xs) = map H vs"
  using assms by (induction vs xs rule: list_induct2) simp_all

lemma final_frame_serials:
  fixes df :: "'v dataframe"
  assumes sub: "set [d, i, p, t, g] \<subseteq> set (columns df)" and dist: "distinct [d, i, p, t, g]"
  shows "\<exists>rest. columns (final_frame repr df [d, i, p, t, g]) = StrLabel ''S/N'' # rest \<and> StrLabel ''S/N'' \<notin> set rest"
    and "map (\<lambda>(ix, row). hd row) (rows (final_frame repr df [d, i, p, t, g]))
          = map (\<lambda>k. IntCell (int k)) [1 ..< length (rows (final_frame repr df [d, i, p, t, g])) + 1]"
    and "list_all (\<lambda>(ix, row). row \<noteq> []) (rows (final_frame repr df [d, i, p, t, g]))"
proof -
  show "\<exists>rest. columns (final_frame repr df [d, i, p, t, g]) = StrLabel ''S/N'' # rest \<and> StrLabel ''S/N'' \<notin> set rest"
    using serial_label_fresh [OF sub dist] by (simp add: final_frame_def del: set_map)
  let ?E = "rows (extracted_frame df [d, i, p, t, g])"
  have len: "length (rows (final_frame repr df [d, i, p, t, g])) = length ?E"
    by (simp add: final_frame_def length_range1)
  have "map (\<lambda>(ix, row). hd row) (rows (final_frame repr df [d, i, p, t, g]))
        = map (\<lambda>v. v) (range1 (length ?E))"
    unfolding final_frame_def dataframe.simps
    by (rule map_numbered_left) (simp_all add: length_range1 case_prod_unfold)
  then show "map (\<lambda>(ix, row). hd row) (rows (final_frame repr df [d, i, p, t, g]))
          = map (\<lambda>k. IntCell (int k)) [1 ..< length (rows (final_frame repr df [d, i, p, t, g])) + 1]"
    by (simp add: len range1_def)
  show "list_all (\<lambda>(ix, row). row \<noteq> []) (rows (final_frame repr df [d, i, p, t, g]))"
    by (auto simp: final_frame_def list_all_iff dest!: set_zip_rightD set_zip_leftD)
qed

lemma found_cols_present:
  assumes found: "snd (find_columns col_map a ft w Map.empty) = Inr (Some fc)"
    and vals: "fc ''Date'' = Some d" "fc ''Invoice No'' = Some i" "fc ''Party Name'' = Some p"
      "fc ''Taxable Amount'' = Some t" "fc ''GST Rate'' = Some g"
  shows "set [d, i, p, t, g] \<subseteq> set (columns (stripped (frames w a)))"
  unfolding columns_stripped
  using vals [unfolded found_cols_resolved [OF found]] by (rule resolved_names(1))

lemma returned_table:
  assumes "process_file repr w (Some a) ft = (w', Inr (Some r))"
  shows "\<exists>fc d i p t g. snd (find_columns col_map a ft w Map.empty) = Inr (Some fc)
           \<and> fc ''Date'' = Some d \<and> fc ''Invoice No'' = Some i \<and> fc ''Party Name'' = Some p
           \<and> fc ''Taxable Amount'' = Some t \<and> fc ''GST Rate'' = Some g
           \<and> distinct [d, i, p, t, g]
           \<and> set [d, i, p, t, g] \<subseteq> set (columns (stripped (frames w a)))
           \<and> r = Suc (next_ref w)
           \<and> frames w' r = final_frame repr (stripped (frames w a)) [d, i, p, t, g]"
proof -
  from process_file_returns [OF assms] obtain fc d i p t g where
    found: "snd (find_columns col_map a ft w Map.empty) = Inr (Some fc)"
    and vals: "fc ''Date'' = Some d" "fc ''Invoice No'' = Some i" "fc ''Party Name'' = Some p"
      "fc ''Taxable Amount'' = Some t" "fc ''GST Rate'' = Some g"
    by (elim exE conjE)
  note res = process_file_success(1) [OF found vals, of repr]
  from assms res have r: "r = Suc (next_ref w)" by simp
  from assms res have "frames w' r = final_frame repr (stripped (frames w a)) [d, i, p, t, g]"
    by (auto simp: r)
  with found vals r process_file_success(2) [OF found vals] found_cols_present [OF found vals]
  show ?thesis
    by (intro exI [of _ fc] exI [of _ d] exI [of _ i] exI [of _ p] exI [of _ t] exI [of _ g] conjI)
qed

text \<open>
  C4. In every table that \<^verbatim>\<open>process_file\<close> returns, the first column is S/N and no other
  column carries that label; row number \<open>j\<close> (from 0) starts with the integer \<open>j + 1\<close>; so
  the S/N column reads 1, 2, ..., N in the order of the rows, without repetition, whatever
  rows of the input were dropped.
\<close>

theorem serial_numbers:
  assumes "process_file repr w (Some a) ft = (w', Inr (Some r))"
  shows "(\<exists>rest. columns (frames w' r) = StrLabel ''S/N'' # rest \<and> StrLabel ''S/N'' \<notin> set rest)
     \<and> (\<forall>j < length (rows (frames w' r)).
           \<exists>ix cells. rows (frames w' r) ! j = (ix, IntCell (int j + 1) # cells))
     \<and> map (\<lambda>(ix, row). cells_under (columns (frames w' r)) (StrLabel ''S/N'') row) (rows (frames w' r))
           = map (\<lambda>k. [IntCell (int k)]) [1 ..< length (rows (frames w' r)) + 1]
     \<and> distinct (map (\<lambda>(ix, row). cells_under (columns (frames w' r)) (StrLabel ''S/N'') row) (rows (frames w' r)))"
proof -
  from returned_table [OF assms] obtain d i p t g where
    dist: "distinct [d, i, p, t, g]"
    and sub: "set [d, i, p, t, g] \<subseteq> set (columns (stripped (frames w a)))"
    and tab: "frames w' r = final_frame repr (stripped (frames w a)) [d, i, p, t, g]"
    by (elim exE conjE)
  let ?T = "frames w' r"
  note ser = final_frame_serials [OF sub dist, of repr, folded tab]
  from ser(1) obtain rest where cols: "columns ?T = StrLabel ''S/N'' # rest" and fresh: "StrLabel ''S/N'' \<notin> set rest"
    by blast
  have ne: "\<And>x. x \<in> set (rows ?T) \<Longrightarrow> snd x \<noteq> []"
    using ser(3) by (auto simp: list_all_iff)
  have nth: "\<forall>j < length (rows ?T). \<exists>ix cells. rows ?T ! j = (ix, IntCell (int j + 1) # cells)"
  proof (intro allI impI)
    fix j assume j: "j < length (rows ?T)"
    obtain ix row where row: "rows ?T ! j = (ix, row)" by (cases "rows ?T ! j")
    from j have "rows ?T ! j \<in> set (rows ?T)" by simp
    from ne [OF this] have "row \<noteq> []" by (simp add: row)
    then obtain c cells where cells: "row = c # cells" by (cases row) auto
    from j have "map (\<lambda>(ix, row). hd row) (rows ?T) ! j = hd row"
      by (simp add: row)
    also from j have "map (\<lambda>(ix, row). hd row) (rows ?T) ! j = IntCell (int j + 1)"
      unfolding ser(2) by (simp add: nth_append del: upt_Suc)
    finally have "c = IntCell (int j + 1)" by (simp add: cells)
    with row cells show "\<exists>ix cells. rows ?T ! j = (ix, IntCell (int j + 1) # cells)" by simp
  qed
  have one: "\<And>x. x \<in> set (rows ?T) \<Longrightarrow>
      (case x of (ix, row) \<Rightarrow> cells_under (columns ?T) (StrLabel ''S/N'') row) = [case x of (ix, row) \<Rightarrow> hd row]"
  proof -
    fix x assume x: "x \<in> set (rows ?T)"
    obtain ix row where xr: "x = (ix, row)" by (cases x)
    from ne [OF x] obtain c cells where cells: "row = c # cells" by (cases row) (auto simp: xr)
    show "(case x of (ix, row) \<Rightarrow> cells_under (columns ?T) (StrLabel ''S/N'') row) = [case x of (ix, row) \<Rightarrow> hd row]"
      by (simp add: xr cells cols cells_under_Cons cells_under_absent [OF fresh])
  qed
  have col: "map (\<lambda>(ix, row). cells_under (columns ?T) (StrLabel ''S/N'') row) (rows ?T)
           = map (\<lambda>k. [IntCell (int k)]) [1 ..< length (rows ?T) + 1]"
  proof -
    have "map (\<lambda>(ix, row). cells_under (columns ?T) (StrLabel ''S/N'') row) (rows ?T)
          = map (\<lambda>c. [c]) (map (\<lambda>(ix, row). hd row) (rows ?T))"
      unfolding map_map comp_def by (rule map_cong [OF refl]) (rule one)
    then show ?thesis unfolding ser(2) by (simp add: comp_def)
  qed
  have "distinct (map (\<lambda>k. [IntCell (int k) :: 'a cell]) [1 ..< length (rows ?T) + 1])"
    by (simp add: distinct_map inj_on_def)
  then have "distinct (map (\<lambda>(ix, row). cells_under (columns ?T) (StrLabel ''S/N'') row) (rows ?T))"
    unfolding col .
  with cols fresh nth col show ?thesis by blast
qed

lemma example_returns:
  "process_file (\<lambda>_. ''x'') example_world (Some 0) ''Purchase''
     = (fst (process_file (\<lambda>_. ''x'') example_world (Some 0) ''Purchase''), Inr (Some 2))"
  by (simp add: prod_eq_iff example_result)

lemma example_length:
  "length (rows (frames (fst (process_file (\<lambda>_. ''x'') example_world (Some 0) ''Purchase'')) 2)) = 3"
  by (simp add: example_clean)

theorem serial_numbers_witness:
  "process_file (\<lambda>_. ''x'') example_world (Some 0) ''Purchase''
     = (fst (process_file (\<lambda>_. ''x'') example_world (Some 0) ''Purchase''), Inr (Some 2))
   \<and> map (\<lambda>(ix, row). cells_under
              (columns (frames (fst (process_file (\<lambda>_. ''x'') example_world (Some 0) ''Purchase'')) 2))
              (StrLabel ''S/N'') row)
         (rows (frames (fst (process_file (\<lambda>_. ''x'') example_world (Some 0) ''Purchase'')) 2))
       = [[IntCell 1], [IntCell 2], [IntCell 3]]"
proof -
  from serial_numbers [OF example_returns]
  have "map (\<lambda>(ix, row). cells_under
              (columns (frames (fst (process_file (\<lambda>_. ''x'') example_world (Some 0) ''Purchase'')) 2))
              (StrLabel ''S/N'') row)
         (rows (frames (fst (process_file (\<lambda>_. ''x'') example_world (Some 0) ''Purchase'')) 2))
       = map (\<lambda>k. [IntCell (int k)]) [1 ..< 3 + 1]"
    unfolding example_length by (elim conjE)
  then have "map (\<lambda>(ix, row). cells_under
              (columns (frames (fst (process_file (\<lambda>_. ''x'') example_world (Some 0) ''Purchase'')) 2))
              (StrLabel ''S/N'') row)
         (rows (frames (fst (process_file (\<lambda>_. ''x'') example_world (Some 0) ''Purchase'')) 2))
       = [[IntCell 1], [IntCell 2], [IntCell 3]]"
    by (simp add: upt_rec)
  with example_returns show ?thesis by (intro conjI)
qed

section \<open>The cells of the clean table\<close>

lemma clean_table:
  assumes wf: "wf_frame (frames w a)"
    and found: "snd (find_columns col_map a ft w Map.empty) = Inr (Some fc)"
    and vals: "fc ''Date'' = Some d" "fc ''Invoice No'' = Some i" "fc ''Party Name'' = Some p"
      "fc ''Taxable Amount'' = Some t" "fc ''GST Rate'' = Some g"
  shows "process_file repr w (Some a) ft
           = (fst (process_file repr w (Some a) ft), Inr (Some (Suc (next_ref w))))"
    and "columns (frames (fst (process_file repr w (Some a) ft)) (Suc (next_ref w)))
           = StrLabel ''S/N'' # map (\<lambda>_. StrLabel ''Date'') (filter (\<lambda>l. l = d) (str_strip (columns (frames w a))))
             @ map (\<lambda>_. StrLabel ''Invoice No'') (filter (\<lambda>l. l = i) (str_strip (columns (frames w a))))
             @ map (\<lambda>_. StrLabel ''Party Name'') (filter (\<lambda>l. l = p) (str_strip (columns (frames w a))))
             @ map (\<lambda>_. StrLabel ''Taxable Amount'') (filter (\<lambda>l. l = t) (str_strip (columns (frames w a))))
             @ map (\<lambda>_. StrLabel ''GST Rate'') (filter (\<lambda>l. l = g) (str_strip (columns (frames w a))))"
    and "rows (frames (fst (process_file repr w (Some a) ft)) (Suc (next_ref w)))
           = map2 (\<lambda>v (ix, row). (ix, v # clean_cells repr (str_strip (columns (frames w a))) [d, i, p, t, g] row))
               (range1 (length (filter (\<lambda>(ix, row). \<not> lacks (str_strip (columns (frames w a))) p row
                                                  \<and> \<not> lacks (str_strip (columns (frames w a))) t row)
                                   (rows (frames w a)))))
               (filter (\<lambda>(ix, row). \<not> lacks (str_strip (columns (frames w a))) p row
                                  \<and> \<not> lacks (str_strip (columns (frames w a))) t row)
                  (rows (frames w a)))"
proof -
  note res = process_file_success(1) [OF found vals, of repr]
  note dist = process_file_success(2) [OF found vals]
  show "process_file repr w (Some a) ft
           = (fst (process_file repr w (Some a) ft), Inr (Some (Suc (next_ref w))))"
    by (simp add: res)
  have tab: "frames (fst (process_file repr w (Some a) ft)) (Suc (next_ref w))
               = final_frame repr (stripped (frames w a)) [d, i, p, t, g]"
    by (simp add: res)
  show "columns (frames (fst (process_file repr w (Some a) ft)) (Suc (next_ref w)))
           = StrLabel ''S/N'' # map (\<lambda>_. StrLabel ''Date'') (filter (\<lambda>l. l = d) (str_strip (columns (frames w a))))
             @ map (\<lambda>_. StrLabel ''Invoice No'') (filter (\<lambda>l. l = i) (str_strip (columns (frames w a))))
             @ map (\<lambda>_. StrLabel ''Party Name'') (filter (\<lambda>l. l = p) (str_strip (columns (frames w a))))
             @ map (\<lambda>_. StrLabel ''Taxable Amount'') (filter (\<lambda>l. l = t) (str_strip (columns (frames w a))))
             @ map (\<lambda>_. StrLabel ''GST Rate'') (filter (\<lambda>l. l = g) (str_strip (columns (frames w a))))"
    unfolding tab final_frame_columns [OF dist] columns_stripped ..
  show "rows (frames (fst (process_file repr w (Some a) ft)) (Suc (next_ref w)))
           = map2 (\<lambda>v (ix, row). (ix, v # clean_cells repr (str_strip (columns (frames w a))) [d, i, p, t, g] row))
               (range1 (length (filter (\<lambda>(ix, row). \<not> lacks (str_strip (columns (frames w a))) p row
                                                  \<and> \<not> lacks (str_strip (columns (frames w a))) t row)
                                   (rows (frames w a)))))
               (filter (\<lambda>(ix, row). \<not> lacks (str_strip (columns (frames w a))) p row
                                  \<and> \<not> lacks (str_strip (columns (frames w a))) t row)
                  (rows (frames w a)))"
    unfolding tab
    using final_frame_rows [where df = "stripped (frames w a)" and repr = repr, OF _ dist] wf
    by (simp add: wf_frame_stripped survivors_def columns_stripped rows_stripped)
qed

lemma clean_table_cells:
  assumes wf: "wf_frame (frames w a)"
    and found: "snd (find_columns col_map a ft w Map.empty) = Inr (Some fc)"
    and vals: "fc ''Date'' = Some d" "fc ''Invoice No'' = Some i" "fc ''Party Name'' = Some p"
      "fc ''Taxable Amount'' = Some t" "fc ''GST Rate'' = Some g"
    and k: "k \<noteq> StrLabel ''S/N''"
  shows "map (\<lambda>(ix, row). (ix, cells_under
                (columns (frames (fst (process_file repr w (Some a) ft)) (Suc (next_ref w)))) k row))
           (rows (frames (fst (process_file repr w (Some a) ft)) (Suc (next_ref w))))
         = map (\<lambda>(ix, row). (ix,
               (if k = StrLabel ''Date'' then cells_under (str_strip (columns (frames w a))) d row else [])
             @ (if k = StrLabel ''Invoice No'' then cells_under (str_strip (columns (frames w a))) i row else [])
             @ (if k = StrLabel ''Party Name'' then cells_under (str_strip (columns (frames w a))) p row else [])
             @ (if k = StrLabel ''Taxable Amount'' then cells_under (str_strip (columns (frames w a))) t row else [])
             @ (if k = StrLabel ''GST Rate''
                then map (\<lambda>c. StrCell (py_str repr c @ ''%'')) (cells_under (str_strip (columns (frames w a))) g row)
                else [])))
           (filter (\<lambda>(ix, row). \<not> lacks (str_strip (columns (frames w a))) p row
                              \<and> \<not> lacks (str_strip (columns (frames w a))) t row)
              (rows (frames w a)))"
proof -
  note dist = process_file_success(2) [OF found vals]
  note tab = clean_table(2,3) [OF wf found vals, of repr]
  show ?thesis
    unfolding tab
  proof (rule map_numbered_right)
    show "length (range1 (length (filter (\<lambda>(ix, row). \<not> lacks (str_strip (columns (frames w a))) p row
                                                  \<and> \<not> lacks (str_strip (columns (frames w a))) t row)
                                   (rows (frames w a)))) :: 'a cell list)
          = length (filter (\<lambda>(ix, row). \<not> lacks (str_strip (columns (frames w a))) p row
                                                  \<and> \<not> lacks (str_strip (columns (frames w a))) t row)
                                   (rows (frames w a)))"
      by (rule length_range1)
  next
    fix v :: "'a cell" and x
    assume "x \<in> set (filter (\<lambda>(ix, row). \<not> lacks (str_strip (columns (frames w a))) p row
                                                  \<and> \<not> lacks (str_strip (columns (frames w a))) t row)
                                   (rows (frames w a)))"
    then have x: "x \<in> set (rows (frames w a))" by simp
    obtain ix row where xr: "x = (ix, row)" by (cases x)
    from wf_frame_length [OF wf] x have "length (columns (frames w a)) = length row"
      unfolding xr .
    then have len: "length (str_strip (columns (frames w a))) = length row"
      by (simp add: str_strip_def)
    show "(case (case x of (ix, row) \<Rightarrow>
                (ix, v # clean_cells repr (str_strip (columns (frames w a))) [d, i, p, t, g] row)) of
             (ix, row) \<Rightarrow> (ix, cells_under
                (StrLabel ''S/N'' # map (\<lambda>_. StrLabel ''Date'') (filter (\<lambda>l. l = d) (str_strip (columns (frames w a))))
             @ map (\<lambda>_. StrLabel ''Invoice No'') (filter (\<lambda>l. l = i) (str_strip (columns (frames w a))))
             @ map (\<lambda>_. StrLabel ''Party Name'') (filter (\<lambda>l. l = p) (str_strip (columns (frames w a))))
             @ map (\<lambda>_. StrLabel ''Taxable Amount'') (filter (\<lambda>l. l = t) (str_strip (columns (frames w a))))
             @ map (\<lambda>_. StrLabel ''GST Rate'') (filter (\<lambda>l. l = g) (str_strip (columns (frames w a))))) k row))
          = (case x of (ix, row) \<Rightarrow> (ix,
               (if k = StrLabel ''Date'' then cells_under (str_strip (columns (frames w a))) d row else [])
             @ (if k = StrLabel ''Invoice No'' then cells_under (str_strip (columns (frames w a))) i row else [])
             @ (if k = StrLabel ''Party Name'' then cells_under (str_strip (columns (frames w a))) p row else [])
             @ (if k = StrLabel ''Taxable Amount'' then cells_under (str_strip (columns (frames w a))) t row else [])
             @ (if k = StrLabel ''GST Rate''
                then map (\<lambda>c. StrCell (py_str repr c @ ''%'')) (cells_under (str_strip (columns (frames w a))) g row)
                else [])))"
      unfolding xr case_prod_conv cells_under_final [OF len dist] using k by simp
  qed
qed

text \<open>
  C3. Let the loop of \<^verbatim>\<open>process_file\<close> have found every column, \<open>p\<close>, \<open>t\<close> and \<open>g\<close> for Party
  Name, Taxable Amount and GST Rate. Then in the table returned, row by row, each cell under
  GST Rate is the string of the cell that the same row of the input has under \<open>g\<close>, followed
  by the percent sign: nothing is parsed or checked. The integer 18 and the string 18 both
  give the string 18 followed by the percent sign.
\<close>

theorem gst_rate_formatted:
  assumes wf: "wf_frame (frames w a)"
    and found: "snd (find_columns col_map a ft w Map.empty) = Inr (Some fc)"
    and p: "fc ''Party Name'' = Some p"
    and t: "fc ''Taxable Amount'' = Some t"
    and g: "fc ''GST Rate'' = Some g"
  shows "\<exists>w' r. process_file repr w (Some a) ft = (w', Inr (Some r))
     \<and> map (\<lambda>(ix, row). (ix, cells_under (columns (frames w' r)) (StrLabel ''GST Rate'') row)) (rows (frames w' r))
       = map (\<lambda>(ix, row). (ix, map (\<lambda>c. StrCell (py_str repr c @ ''%''))
                                  (cells_under (str_strip (columns (frames w a))) g row)))
           (filter (\<lambda>(ix, row). \<not> lacks (str_strip (columns (frames w a))) p row
                              \<and> \<not> lacks (str_strip (columns (frames w a))) t row)
              (rows (frames w a)))
     \<and> py_str repr (IntCell 18) @ ''%'' = ''18%''
     \<and> py_str repr (StrCell ''18'') @ ''%'' = ''18%''"
proof -
  from found_cols_total [OF found] p t g obtain d i where
    vals: "fc ''Date'' = Some d" "fc ''Invoice No'' = Some i" "fc ''Party Name'' = Some p"
      "fc ''Taxable Amount'' = Some t" "fc ''GST Rate'' = Some g"
    by auto
  have k: "StrLabel ''GST Rate'' \<noteq> StrLabel ''S/N''" by simp
  note ret = clean_table(1) [OF wf found vals, of repr]
  note cells = clean_table_cells [OF wf found vals k, of repr]
  have "py_str repr (IntCell 18) @ ''%'' = ''18%''"
    by (simp add: str_int_def str_nat.simps)
  moreover have "py_str repr (StrCell ''18'') @ ''%'' = ''18%''"
    by simp
  ultimately show ?thesis
    using ret cells
    by (intro exI [of _ "fst (process_file repr w (Some a) ft)"] exI [of _ "Suc (next_ref w)"] conjI)
       simp_all
qed

lemma example_survivors:
  "filter (\<lambda>(ix, row). \<not> lacks (str_strip (columns (frames example_world 0))) (StrLabel ''Receiver Name'') row
                    \<and> \<not> lacks (str_strip (columns (frames example_world 0))) (StrLabel ''Taxable value'') row)
     (rows (frames example_world 0))
   = [(0, [StrCell ''2024-01-01'', StrCell ''INV001'', StrCell ''Acme Co'', IntCell 1000, IntCell 18]),
      (2, [NaN, StrCell ''INV003'', StrCell ''Bolt Ltd'', IntCell 250, NaN]),
      (3, [StrCell ''2024-01-04'', NaN, StrCell ''Cog Inc'', IntCell 75, StrCell ''18''])]"
  by (simp add: example_labels example_rows lacks_def cells_under_def)

theorem gst_rate_formatted_witness:
  "wf_frame (frames example_world 0)
   \<and> (\<exists>fc. snd (find_columns col_map 0 ''Purchase'' example_world Map.empty) = Inr (Some fc)
         \<and> fc ''Party Name'' = Some (StrLabel ''Receiver Name'')
         \<and> fc ''Taxable Amount'' = Some (StrLabel ''Taxable value'')
         \<and> fc ''GST Rate'' = Some (StrLabel ''Rate''))
   \<and> (\<exists>w' r. process_file (\<lambda>_. ''x'') example_world (Some 0) ''Purchase'' = (w', Inr (Some r))
         \<and> map (\<lambda>(ix, row). (ix, cells_under (columns (frames w' r)) (StrLabel ''GST Rate'') row)) (rows (frames w' r))
           = [(0, [StrCell ''18%'']), (2, [StrCell ''nan%'']), (3, [StrCell ''18%''])])"
proof -
  from example_found obtain fc where
    fc: "snd (find_columns col_map 0 ''Purchase'' example_world Map.empty) = Inr (Some fc)"
    and p: "fc ''Party Name'' = Some (StrLabel ''Receiver Name'')"
    and t: "fc ''Taxable Amount'' = Some (StrLabel ''Taxable value'')"
    and g: "fc ''GST Rate'' = Some (StrLabel ''Rate'')"
    by blast
  from gst_rate_formatted [OF example_wf fc p t g, of "\<lambda>_. ''x''"]
  have "\<exists>w' r. process_file (\<lambda>_. ''x'') example_world (Some 0) ''Purchase'' = (w', Inr (Some r))
         \<and> map (\<lambda>(ix, row). (ix, cells_under (columns (frames w' r)) (StrLabel ''GST Rate'') row)) (rows (frames w' r))
           = [(0, [StrCell ''18%'']), (2, [StrCell ''nan%'']), (3, [StrCell ''18%''])]"
    unfolding example_survivors
    by (simp add: example_labels cells_under_def str_int_def str_nat.simps)
  moreover from fc p t g have "\<exists>fc. snd (find_columns col_map 0 ''Purchase'' example_world Map.empty) = Inr (Some fc)
         \<and> fc ''Party Name'' = Some (StrLabel ''Receiver Name'')
         \<and> fc ''Taxable Amount'' = Some (StrLabel ''Taxable value'')
         \<and> fc ''GST Rate'' = Some (StrLabel ''Rate'')"
    by (intro exI [of _ fc] conjI)
  ultimately show ?thesis using example_wf by (intro conjI)
qed

text \<open>
  C10. Under the same assumptions, take the \<open>j\<close>-th of the rows that stay and a cell of it
  under \<open>g\<close> that is NaN. The row is not dropped: it is row \<open>j\<close> of the table returned, with
  the same index label, and there the cell at the same place under GST Rate is the string
  \<open>nan%\<close>.
\<close>

theorem missing_rate_becomes_nan_percent:
  assumes wf: "wf_frame (frames w a)"
    and found: "snd (find_columns col_map a ft w Map.empty) = Inr (Some fc)"
    and p: "fc ''Party Name'' = Some p"
    and t: "fc ''Taxable Amount'' = Some t"
    and g: "fc ''GST Rate'' = Some g"
    and j: "j < length (filter (\<lambda>(ix, row). \<not> lacks (str_strip (columns (frames w a))) p row
                                          \<and> \<not> lacks (str_strip (columns (frames w a))) t row)
                          (rows (frames w a)))"
    and k: "k < length (cells_under (str_strip (columns (frames w a))) g
                (snd (filter (\<lambda>(ix, row). \<not> lacks (str_strip (columns (frames w a))) p row
                                         \<and> \<not> lacks (str_strip (columns (frames w a))) t row)
                        (rows (frames w a)) ! j)))"
    and nan: "cells_under (str_strip (columns (frames w a))) g
                (snd (filter (\<lambda>(ix, row). \<not> lacks (str_strip (columns (frames w a))) p row
                                         \<and> \<not> lacks (str_strip (columns (frames w a))) t row)
                        (rows (frames w a)) ! j)) ! k = NaN"
  shows "\<exists>w' r. process_file repr w (Some a) ft = (w', Inr (Some r))
     \<and> j < length (rows (frames w' r))
     \<and> fst (rows (frames w' r) ! j)
         = fst (filter (\<lambda>(ix, row). \<not> lacks (str_strip (columns (frames w a))) p row
                                  \<and> \<not> lacks (str_strip (columns (frames w a))) t row)
                  (rows (frames w a)) ! j)
     \<and> cells_under (columns (frames w' r)) (StrLabel ''GST Rate'') (snd (rows (frames w' r) ! j)) ! k
         = StrCell ''nan%''"
proof -
  let ?L = "str_strip (columns (frames w a))"
  let ?S = "filter (\<lambda>(ix, row). \<not> lacks ?L p row \<and> \<not> lacks ?L t row) (rows (frames w a))"
  let ?T = "frames (fst (process_file repr w (Some a) ft)) (Suc (next_ref w))"
  from found_cols_total [OF found] p t g obtain d i where
    vals: "fc ''Date'' = Some d" "fc ''Invoice No'' = Some i" "fc ''Party Name'' = Some p"
      "fc ''Taxable Amount'' = Some t" "fc ''GST Rate'' = Some g"
    by auto
  have ne: "StrLabel ''GST Rate'' \<noteq> StrLabel ''S/N''" by simp
  note ret = clean_table(1) [OF wf found vals, of repr]
  from clean_table_cells [OF wf found vals ne, of repr]
  have cells: "map (\<lambda>(ix, row). (ix, cells_under (columns ?T) (StrLabel ''GST Rate'') row)) (rows ?T)
       = map (\<lambda>(ix, row). (ix, map (\<lambda>c. StrCell (py_str repr c @ ''%'')) (cells_under ?L g row))) ?S"
    by simp
  from arg_cong [OF cells, of length] have len: "length (rows ?T) = length ?S" by simp
  with j have jT: "j < length (rows ?T)" by simp
  from arg_cong [OF cells, of "\<lambda>xs. xs ! j"] j jT
  have "(case rows ?T ! j of (ix, row) \<Rightarrow> (ix, cells_under (columns ?T) (StrLabel ''GST Rate'') row))
        = (case ?S ! j of (ix, row) \<Rightarrow> (ix, map (\<lambda>c. StrCell (py_str repr c @ ''%'')) (cells_under ?L g row)))"
    by simp
  then have ix: "fst (rows ?T ! j) = fst (?S ! j)"
    and row: "cells_under (columns ?T) (StrLabel ''GST Rate'') (snd (rows ?T ! j))
               = map (\<lambda>c. StrCell (py_str repr c @ ''%'')) (cells_under ?L g (snd (?S ! j)))"
    by (simp_all add: case_prod_unfold)
  from k nan have "cells_under (columns ?T) (StrLabel ''GST Rate'') (snd (rows ?T ! j)) ! k = StrCell ''nan%''"
    unfolding row by simp
  with ret jT ix show ?thesis
    by (intro exI [of _ "fst (process_file repr w (Some a) ft)"] exI [of _ "Suc (next_ref w)"] conjI)
qed

theorem missing_rate_becomes_nan_percent_witness:
  "wf_frame (frames example_world 0)
   \<and> (\<exists>fc. snd (find_columns col_map 0 ''Purchase'' example_world Map.empty) = Inr (Some fc)
         \<and> fc ''Party Name'' = Some (StrLabel ''Receiver Name'')
         \<and> fc ''Taxable Amount'' = Some (StrLabel ''Taxable value'')
         \<and> fc ''GST Rate'' = Some (StrLabel ''Rate''))
   \<and> cells_under (str_strip (columns (frames example_world 0))) (StrLabel ''Rate'')
        (snd (filter (\<lambda>(ix, row). \<not> lacks (str_strip (columns (frames example_world 0))) (StrLabel ''Receiver Name'') row
                              \<and> \<not> lacks (str_strip (columns (frames example_world 0))) (StrLabel ''Taxable value'') row)
                (rows (frames example_world 0)) ! 1)) = [NaN]
   \<and> (\<exists>w' r. process_file (\<lambda>_. ''x'') example_world (Some 0) ''Purchase'' = (w', Inr (Some r))
         \<and> fst (rows (frames w' r) ! 1) = 2
         \<and> cells_under (columns (frames w' r)) (StrLabel ''GST Rate'') (snd (rows (frames w' r) ! 1)) ! 0
             = StrCell ''nan%'')"
proof -
  from example_found obtain fc where
    fc: "snd (find_columns col_map 0 ''Purchase'' example_world Map.empty) = Inr (Some fc)"
    and p: "fc ''Party Name'' = Some (StrLabel ''Receiver Name'')"
    and t: "fc ''Taxable Amount'' = Some (StrLabel ''Taxable value'')"
    and g: "fc ''GST Rate'' = Some (StrLabel ''Rate'')"
    by blast
  have cell: "cells_under (str_strip (columns (frames example_world 0))) (StrLabel ''Rate'')
        (snd (filter (\<lambda>(ix, row). \<not> lacks (str_strip (columns (frames example_world 0))) (StrLabel ''Receiver Name'') row
                              \<and> \<not> lacks (str_strip (columns (frames example_world 0))) (StrLabel ''Taxable value'') row)
                (rows (frames example_world 0)) ! 1)) = [NaN]"
    unfolding example_survivors by (simp add: example_labels cells_under_def)
  have j: "1 < length (filter (\<lambda>(ix, row). \<not> lacks (str_strip (columns (frames example_world 0))) (StrLabel ''Receiver Name'') row
                              \<and> \<not> lacks (str_strip (columns (frames example_world 0))) (StrLabel ''Taxable value'') row)
                (rows (frames example_world 0)))"
    unfolding example_survivors by simp
  have k: "0 < length (cells_under (str_strip (columns (frames example_world 0))) (StrLabel ''Rate'')
        (snd (filter (\<lambda>(ix, row). \<not> lacks (str_strip (columns (frames example_world 0))) (StrLabel ''Receiver Name'') row
                              \<and> \<not> lacks (str_strip (columns (frames example_world 0))) (StrLabel ''Taxable value'') row)
                (rows (frames example_world 0)) ! 1)))"
    unfolding cell by simp
  have nan: "cells_under (str_strip (columns (frames example_world 0))) (StrLabel ''Rate'')
        (snd (filter (\<lambda>(ix, row). \<not> lacks (str_strip (columns (frames example_world 0))) (StrLabel ''Receiver Name'') row
                              \<and> \<not> lacks (str_strip (columns (frames example_world 0))) (StrLabel ''Taxable value'') row)
                (rows (frames example_world 0)) ! 1)) ! 0 = NaN"
    unfolding cell by simp
  from missing_rate_becomes_nan_percent [OF example_wf fc p t g j k nan, of "\<lambda>_. ''x''"]
  obtain w' r where
    "process_file (\<lambda>_. ''x'') example_world (Some 0) ''Purchase'' = (w', Inr (Some r))"
    "fst (rows (frames w' r) ! 1) = 2"
    "cells_under (columns (frames w' r)) (StrLabel ''GST Rate'') (snd (rows (frames w' r) ! 1)) ! 0 = StrCell ''nan%''"
    unfolding example_survivors by (elim exE conjE) simp
  then have "\<exists>w' r. process_file (\<lambda>_. ''x'') example_world (Some 0) ''Purchase'' = (w', Inr (Some r))
         \<and> fst (rows (frames w' r) ! 1) = 2
         \<and> cells_under (columns (frames w' r)) (StrLabel ''GST Rate'') (snd (rows (frames w' r) ! 1)) ! 0
             = StrCell ''nan%''"
    by (intro exI [of _ w'] exI [of _ r] conjI)
  moreover from fc p t g have "\<exists>fc. snd (find_columns col_map 0 ''Purchase'' example_world Map.empty) = Inr (Some fc)
         \<and> fc ''Party Name'' = Some (StrLabel ''Receiver Name'')
         \<and> fc ''Taxable Amount'' = Some (StrLabel ''Taxable value'')
         \<and> fc ''GST Rate'' = Some (StrLabel ''Rate'')"
    by (intro exI [of _ fc] conjI)
  ultimately show ?thesis using example_wf cell by (intro conjI)
qed
section \<open>The caller's DataFrame\<close>

lemma process_file_frames_old:
  assumes "str_accepts (frames w a)" and "b < next_ref w"
  shows "frames (fst (process_file repr w (Some a) ft)) b = frames (stripped_world w a) b"
proof (cases "resolve (str_strip (columns (frames w a))) col_map Map.empty")
  case (Inl n)
  show ?thesis
    by (simp add: process_file_missing [OF assms(1) Inl] st_error_def)
next
  case (Inr fc)
  with assms(1) have found: "snd (find_columns col_map a ft w Map.empty) = Inr (Some fc)"
    by (simp add: found_iff_resolve)
  from found_cols_total [OF found] obtain d i p t g where
    vals: "fc ''Date'' = Some d" "fc ''Invoice No'' = Some i" "fc ''Party Name'' = Some p"
      "fc ''Taxable Amount'' = Some t" "fc ''GST Rate'' = Some g"
    by (elim exE conjE)
  from assms(2) show ?thesis
    by (simp add: process_file_success(1) [OF found vals])
qed

lemma process_file_returns_when_accepted:
  assumes "str_accepts (frames w a)"
  shows "\<exists>res. snd (process_file repr w (Some a) ft) = Inr res"
  using process_file_raises_iff [of repr w a ft] assms
  by (cases "snd (process_file repr w (Some a) ft)") auto





section \<open>Running process_file again\<close>

lemma process_file_next_ref: "next_ref w \<le> next_ref (fst (process_file repr w (Some a) ft))"
proof (cases "str_accepts (frames w a)")
  case False
  then show ?thesis by (simp add: process_file_refused)
next
  case True
  show ?thesis
  proof (cases "resolve (str_strip (columns (frames w a))) col_map Map.empty")
    case (Inl n)
    show ?thesis
      by (simp add: process_file_missing [OF True Inl] st_error_def next_ref_stripped_world)
  next
    case (Inr fc)
    with True have found: "snd (find_columns col_map a ft w Map.empty) = Inr (Some fc)"
      by (simp add: found_iff_resolve)
    from found_cols_total [OF found] obtain d i p t g where
      vals: "fc ''Date'' = Some d" "fc ''Invoice No'' = Some i" "fc ''Party Name'' = Some p"
        "fc ''Taxable Amount'' = Some t" "fc ''GST Rate'' = Some g"
      by (elim exE conjE)
    show ?thesis
      by (simp add: process_file_success(1) [OF found vals])
  qed
qed

lemma process_file_result:
  assumes acc: "str_accepts (frames w a)"
  shows "map_sum id (map_option (frames (fst (process_file repr w (Some a) ft)))) (snd (process_file repr w (Some a) ft))
     = (case resolve (str_strip (columns (frames w a))) col_map Map.empty of
          Inl n \<Rightarrow> Inr None
        | Inr fc \<Rightarrow> Inr (Some (final_frame repr (stripped (frames w a))
                     [the (fc ''Date''), the (fc ''Invoice No''), the (fc ''Party Name''),
                      the (fc ''Taxable Amount''), the (fc ''GST Rate'')])))"
proof (cases "resolve (str_strip (columns (frames w a))) col_map Map.empty")
  case (Inl n)
  show ?thesis
    by (simp add: process_file_missing [OF acc Inl] Inl)
next
  case (Inr fc)
  with acc have found: "snd (find_columns col_map a ft w Map.empty) = Inr (Some fc)"
    by (simp add: found_iff_resolve)
  from found_cols_total [OF found] obtain d i p t g where
    vals: "fc ''Date'' = Some d" "fc ''Invoice No'' = Some i" "fc ''Party Name'' = Some p"
      "fc ''Taxable Amount'' = Some t" "fc ''GST Rate'' = Some g"
    by (elim exE conjE)
  show ?thesis
    by (simp add: process_file_success(1) [OF found vals] Inr vals)
qed

text \<open>
  C8. Call \<^verbatim>\<open>process_file\<close> on a DataFrame \<open>a\<close> that exists in the store, and again on the same
  object after the first call. Either both calls return None, or both return a table and
  the two tables are equal (columns, index labels and cells), and the second call leaves
  the table of the first call as it was. The one other case is that the first call ends
  with the exception of its first statement: then it changed nothing, and the second call
  ends with the same exception; no table is produced by either.
\<close>

theorem process_file_twice:
  assumes a: "a < next_ref w"
    and first: "process_file repr w (Some a) ft = (w1, res1)"
    and second: "process_file repr w1 (Some a) ft = (w2, res2)"
  shows "(\<exists>t1 t2. res1 = Inr t1 \<and> res2 = Inr t2
            \<and> map_option (frames w2) t2 = map_option (frames w1) t1
            \<and> map_option (frames w2) t1 = map_option (frames w1) t1
            \<and> (t1 = None \<longleftrightarrow> t2 = None))
       \<or> (\<exists>e. res1 = Inl e \<and> res2 = Inl e \<and> w1 = w \<and> w2 = w)"
proof (cases "str_accepts (frames w a)")
  case False
  from first have 1: "w1 = w" "res1 = Inl (AttributeError ''Can only use .str accessor with string values!'')"
    by (simp_all add: process_file_refused [OF False])
  from second have 2: "w2 = w" "res2 = Inl (AttributeError ''Can only use .str accessor with string values!'')"
    unfolding 1 by (simp_all add: process_file_refused [OF False])
  from 1 2 show ?thesis by simp
next
  case acc: True
  from first have w1: "w1 = fst (process_file repr w (Some a) ft)"
    and res1: "res1 = snd (process_file repr w (Some a) ft)" by simp_all
  from second have w2: "w2 = fst (process_file repr w1 (Some a) ft)"
    and res2: "res2 = snd (process_file repr w1 (Some a) ft)" by simp_all
  have same: "frames w1 a = stripped (frames w a)"
    unfolding w1 using a by (simp add: process_file_frames_old [OF acc] frames_stripped_world_same)
  then have labels: "str_strip (columns (frames w1 a)) = str_strip (columns (frames w a))"
    and again: "stripped (frames w1 a) = stripped (frames w a)"
    and acc1: "str_accepts (frames w1 a)"
    by (simp_all add: columns_stripped str_strip_idem stripped_idem str_accepts_stripped)
  note r1 = process_file_result [OF acc, of repr ft, folded w1 res1]
  note r2 = process_file_result [OF acc1, of repr ft, folded w2 res2, unfolded labels again]
  have "\<exists>t1 t2. res1 = Inr t1 \<and> res2 = Inr t2
            \<and> map_option (frames w2) t2 = map_option (frames w1) t1
            \<and> map_option (frames w2) t1 = map_option (frames w1) t1
            \<and> (t1 = None \<longleftrightarrow> t2 = None)"
  proof (cases "resolve (str_strip (columns (frames w a))) col_map Map.empty")
    case (Inl n)
    from r1 r2 have "res1 = Inr None" and "res2 = Inr None"
      unfolding Inl by (cases res1; cases res2; simp)+
    then show ?thesis by simp
  next
    case (Inr fc)
    with acc have found: "snd (find_columns col_map a ft w Map.empty) = Inr (Some fc)"
      by (simp add: found_iff_resolve)
    from found_cols_total [OF found] obtain d i p t g where
      vals: "fc ''Date'' = Some d" "fc ''Invoice No'' = Some i" "fc ''Party Name'' = Some p"
        "fc ''Taxable Amount'' = Some t" "fc ''GST Rate'' = Some g"
      by (elim exE conjE)
    from first process_file_success(1) [OF found vals, of repr]
    have t1: "res1 = Inr (Some (Suc (next_ref w)))" and n1: "next_ref w1 = Suc (Suc (next_ref w))"
      by auto
    from r2 obtain k where t2: "res2 = Inr (Some k)"
      unfolding Inr by (cases res2; simp) (metis not_None_eq option.simps(8))
    from r1 r2 have eq: "frames w2 k = frames w1 (Suc (next_ref w))"
      unfolding Inr t1 t2 by simp
    have lt: "Suc (next_ref w) < next_ref w1" by (simp add: n1)
    have ne: "Suc (next_ref w) \<noteq> a" using a by simp
    from process_file_frames_old [OF acc1 lt, of repr ft]
    have keep: "frames w2 (Suc (next_ref w)) = frames w1 (Suc (next_ref w))"
      unfolding w2 [symmetric] by (simp add: frames_stripped_world_other [OF ne])
    from t1 t2 eq keep show ?thesis by simp
  qed
  then show ?thesis ..
qed

theorem process_file_twice_witness:
  "0 < next_ref example_world
   \<and> (\<exists>t2. snd (process_file (\<lambda>_. ''x'') example_world (Some 0) ''Purchase'') = Inr (Some 2)
         \<and> snd (process_file (\<lambda>_. ''x'')
                  (fst (process_file (\<lambda>_. ''x'') example_world (Some 0) ''Purchase'')) (Some 0) ''Purchase'')
             = Inr (Some t2)
         \<and> frames (fst (process_file (\<lambda>_. ''x'')
                  (fst (process_file (\<lambda>_. ''x'') example_world (Some 0) ''Purchase'')) (Some 0) ''Purchase'')) t2
             = frames (fst (process_file (\<lambda>_. ''x'') example_world (Some 0) ''Purchase'')) 2)"
proof -
  let ?w1 = "fst (process_file (\<lambda>_. ''x'') example_world (Some 0) ''Purchase'')"
  let ?run2 = "process_file (\<lambda>_. ''x'') ?w1 (Some 0) ''Purchase''"
  have a: "0 < next_ref example_world" by (simp add: example_world_def)
  have second: "?run2 = (fst ?run2, snd ?run2)" by simp
  from process_file_twice [OF a example_returns second]
  have "\<exists>t1 t2. Inr (Some 2) = (Inr t1 :: exn + nat option) \<and> snd ?run2 = Inr t2
            \<and> map_option (frames (fst ?run2)) t2 = map_option (frames ?w1) t1
            \<and> map_option (frames (fst ?run2)) t1 = map_option (frames ?w1) t1
            \<and> (t1 = None \<longleftrightarrow> t2 = None)"
    by (elim disjE exE conjE) simp_all
  then obtain t1 t2 where "Inr (Some 2) = (Inr t1 :: exn + nat option)" and r2: "snd ?run2 = Inr t2"
    and eq: "map_option (frames (fst ?run2)) t2 = map_option (frames ?w1) t1"
    and none: "t1 = None \<longleftrightarrow> t2 = None"
    by (elim exE conjE)
  then have t1: "t1 = Some 2" by simp
  with none obtain k where k: "t2 = Some k" by (cases t2) simp_all
  from eq have "frames (fst ?run2) k = frames ?w1 2" by (simp add: t1 k)
  with r2 k example_result have "\<exists>t2. snd (process_file (\<lambda>_. ''x'') example_world (Some 0) ''Purchase'') = Inr (Some 2)
         \<and> snd ?run2 = Inr (Some t2) \<and> frames (fst ?run2) t2 = frames ?w1 2"
    by (intro exI [of _ k] conjI) simp_all
  with a show ?thesis by (intro conjI)
qed

section \<open>The columns of the clean table\<close>

lemma filter_eq_single: "distinct xs \<Longrightarrow> x \<in> set xs \<Longrightarrow> filter (\<lambda>l. l = x) xs = [x]"
  by (induction xs) (auto simp: filter_empty_conv)

lemma six_columns_when_labels_distinct:
  assumes wf: "wf_frame (frames w a)"
    and found: "snd (find_columns col_map a ft w Map.empty) = Inr (Some fc)"
    and uniq: "distinct (str_strip (columns (frames w a)))"
  shows "\<exists>w' r. process_file repr w (Some a) ft = (w', Inr (Some r))
     \<and> columns (frames w' r)
         = [StrLabel ''S/N'', StrLabel ''Date'', StrLabel ''Invoice No'', StrLabel ''Party Name'',
            StrLabel ''Taxable Amount'', StrLabel ''GST Rate'']"
proof -
  from found_cols_total [OF found] obtain d i p t g where
    vals: "fc ''Date'' = Some d" "fc ''Invoice No'' = Some i" "fc ''Party Name'' = Some p"
      "fc ''Taxable Amount'' = Some t" "fc ''GST Rate'' = Some g"
    by (elim exE conjE)
  from found_cols_present [OF found vals]
  have mem: "d \<in> set (str_strip (columns (frames w a)))" "i \<in> set (str_strip (columns (frames w a)))"
    "p \<in> set (str_strip (columns (frames w a)))" "t \<in> set (str_strip (columns (frames w a)))"
    "g \<in> set (str_strip (columns (frames w a)))"
    by (simp_all add: columns_stripped)
  note one = mem [THEN filter_eq_single [OF uniq]]
  from clean_table(1,2) [OF wf found vals, of repr] show ?thesis
    by (intro exI [of _ "fst (process_file repr w (Some a) ft)"] exI [of _ "Suc (next_ref w)"] conjI)
       (simp_all add: one)
qed

lemma rows_keep_their_order:
  assumes wf: "wf_frame (frames w a)"
    and found: "snd (find_columns col_map a ft w Map.empty) = Inr (Some fc)"
    and vals: "fc ''Date'' = Some d" "fc ''Invoice No'' = Some i" "fc ''Party Name'' = Some p"
      "fc ''Taxable Amount'' = Some t" "fc ''GST Rate'' = Some g"
  shows "\<exists>w' r. process_file repr w (Some a) ft = (w', Inr (Some r))
     \<and> map (\<lambda>(ix, row). (ix, tl row)) (rows (frames w' r))
       = map (\<lambda>(ix, row). (ix,
               cells_under (str_strip (columns (frames w a))) d row
               @ cells_under (str_strip (columns (frames w a))) i row
               @ cells_under (str_strip (columns (frames w a))) p row
               @ cells_under (str_strip (columns (frames w a))) t row
               @ map (\<lambda>c. StrCell (py_str repr c @ ''%''))
                   (cells_under (str_strip (columns (frames w a))) g row)))
           (filter (\<lambda>(ix, row). \<not> lacks (str_strip (columns (frames w a))) p row
                              \<and> \<not> lacks (str_strip (columns (frames w a))) t row)
              (rows (frames w a)))"
proof -
  note tab = clean_table(1,3) [OF wf found vals, of repr]
  have "map (\<lambda>(ix, row). (ix, tl row))
          (rows (frames (fst (process_file repr w (Some a) ft)) (Suc (next_ref w))))
       = map (\<lambda>(ix, row). (ix,
               cells_under (str_strip (columns (frames w a))) d row
               @ cells_under (str_strip (columns (frames w a))) i row
               @ cells_under (str_strip (columns (frames w a))) p row
               @ cells_under (str_strip (columns (frames w a))) t row
               @ map (\<lambda>c. StrCell (py_str repr c @ ''%''))
                   (cells_under (str_strip (columns (frames w a))) g row)))
           (filter (\<lambda>(ix, row). \<not> lacks (str_strip (columns (frames w a))) p row
                              \<and> \<not> lacks (str_strip (columns (frames w a))) t row)
              (rows (frames w a)))"
    unfolding tab(2)
    by (rule map_numbered_right) (simp_all add: length_range1 case_prod_unfold clean_cells_def)
  with tab(1) show ?thesis
    by (intro exI [of _ "fst (process_file repr w (Some a) ft)"] exI [of _ "Suc (next_ref w)"] conjI)
qed

lemma to_excel_without_index:
  "to_excel df writer sheet False
     = writer @ [\<lparr>sheet_name = sheet, header = columns df, body = map snd (rows df)\<rparr>]"
  by (simp add: to_excel_def case_prod_unfold)

text \<open>
  C5. A table whose header holds \<open>Rate\<close> twice once the labels are stripped (here \<open>Rate\<close> and
  \<open>Rate\<close> followed by a space): both columns are selected, and the table returned has seven
  columns, GST Rate twice, as has the sheet written from it.
\<close>

theorem twin_label_gives_seven_columns:
  "snd (process_file (\<lambda>_. ''x'') twin_rate_world (Some 0) ''Purchase'') = Inr (Some 2)
   \<and> frames (fst (process_file (\<lambda>_. ''x'') twin_rate_world (Some 0) ''Purchase'')) 2
       = \<lparr>columns = [StrLabel ''S/N'', StrLabel ''Date'', StrLabel ''Invoice No'', StrLabel ''Party Name'',
                     StrLabel ''Taxable Amount'', StrLabel ''GST Rate'', StrLabel ''GST Rate''],
          columns_dtype = ObjectDtype,
          rows = [(0, [IntCell 1, StrCell ''2024-01-01'', StrCell ''INV001'', StrCell ''Acme Co'',
                       IntCell 1000, StrCell ''18%'', StrCell ''5%''])]\<rparr>
   \<and> to_excel (frames (fst (process_file (\<lambda>_. ''x'') twin_rate_world (Some 0) ''Purchase'')) 2)
         [] ''Purchase Data'' False
       = [\<lparr>sheet_name = ''Purchase Data'',
           header = [StrLabel ''S/N'', StrLabel ''Date'', StrLabel ''Invoice No'', StrLabel ''Party Name'',
                     StrLabel ''Taxable Amount'', StrLabel ''GST Rate'', StrLabel ''GST Rate''],
           body = [[IntCell 1, StrCell ''2024-01-01'', StrCell ''INV001'', StrCell ''Acme Co'',
                    IntCell 1000, StrCell ''18%'', StrCell ''5%'']]\<rparr>]"
  by (simp add: twin_rate_world_def eval_simps to_excel_def str_int_def str_nat.simps upt_rec)

section \<open>load_data\<close>

lemma load_data_reads_csv:
  assumes "endswith (name f) ''.csv''" and "read_csv pd f 8 = Inr df"
  shows "load_data pd w (Some f)
     = (w\<lparr>frames := (frames w)(next_ref w := df), next_ref := Suc (next_ref w)\<rparr>, Some (next_ref w))"
  using assms by (simp add: load_data_def new_frame_def)

lemma load_data_reads_excel:
  assumes "\<not> endswith (name f) ''.csv''" and "endswith (name f) ''.xls'' \<or> endswith (name f) ''.xlsx''"
    and "read_excel pd f 8 = Inr df"
  shows "load_data pd w (Some f)
     = (w\<lparr>frames := (frames w)(next_ref w := df), next_ref := Suc (next_ref w)\<rparr>, Some (next_ref w))"
  using assms by (simp add: load_data_def new_frame_def)

lemma load_data_reader_raises:
  assumes "endswith (name f) ''.csv'' \<and> read_csv pd f 8 = Inl e
         \<or> \<not> endswith (name f) ''.csv'' \<and> (endswith (name f) ''.xls'' \<or> endswith (name f) ''.xlsx'')
             \<and> read_excel pd f 8 = Inl e"
  shows "load_data pd w (Some f)
     = (w\<lparr>ui := ui w @ [StError (''Error reading '' @ name f @ '': '' @ e
              @ ''. Please ensure it is a valid file with data starting after row 8.'')]\<rparr>, None)"
  using assms by (auto simp: load_data_def st_error_def read_error_message_def)

lemma load_data_other_name:
  assumes "\<not> endswith (name f) ''.csv''" "\<not> endswith (name f) ''.xls''" "\<not> endswith (name f) ''.xlsx''"
  shows "load_data pd w (Some f) = (w, None)"
  using assms by (simp add: load_data_def)

text \<open>
  C7. A file named \<open>DATA.CSV\<close>: its name ends in none of \<open>.csv\<close>, \<open>.xls\<close>, \<open>.xlsx\<close> as
  \<^verbatim>\<open>load_data\<close> compares them, so no reader is called; \<^verbatim>\<open>load_data\<close> returns None and the
  page is as before: no error is shown.
\<close>

theorem load_data_silent_on_other_name:
  "load_data pd w (Some \<lparr>name = ''DATA.CSV'', content = c\<rparr>) = (w, None)"
  by (simp add: load_data_def endswith_def)

section \<open>The button\<close>

lemma load_data_read_table:
  "load_data pd w (Some f) =
     (case read_table pd f of
        None \<Rightarrow> (w, None)
      | Some (Inl e) \<Rightarrow> (st_error w (read_error_message (name f) e), None)
      | Some (Inr df) \<Rightarrow>
          (w\<lparr>frames := (frames w)(next_ref w := df), next_ref := Suc (next_ref w)\<rparr>, Some (next_ref w)))"
  by (simp add: load_data_def read_table_def new_frame_def split: sum.splits)

lemma load_data_effect:
  shows "ui (fst (load_data pd w (Some f))) = ui w @ read_errors pd f"
    and "map_option (frames (fst (load_data pd w (Some f)))) (snd (load_data pd w (Some f))) = loaded pd f"
    and "b < next_ref w \<Longrightarrow> frames (fst (load_data pd w (Some f))) b = frames w b"
    and "next_ref w \<le> next_ref (fst (load_data pd w (Some f)))"
    and "snd (load_data pd w (Some f)) = Some k \<Longrightarrow>
           next_ref w \<le> k \<and> k < next_ref (fst (load_data pd w (Some f)))"
  by (auto simp: load_data_read_table read_errors_def loaded_def st_error_def
      split: option.splits sum.splits)

lemma process_file_ui:
  assumes acc: "str_accepts (frames w a)"
  shows "ui (fst (process_file repr w (Some a) ft)) = ui w @ column_errors ft (frames w a)"
proof (cases "resolve (str_strip (columns (frames w a))) col_map Map.empty")
  case (Inl n)
  show ?thesis
    by (simp add: process_file_missing [OF acc Inl] column_errors_def Inl st_error_def ui_stripped_world)
next
  case (Inr fc)
  with acc have found: "snd (find_columns col_map a ft w Map.empty) = Inr (Some fc)"
    by (simp add: found_iff_resolve)
  from found_cols_total [OF found] obtain d i p t g where
    vals: "fc ''Date'' = Some d" "fc ''Invoice No'' = Some i" "fc ''Party Name'' = Some p"
      "fc ''Taxable Amount'' = Some t" "fc ''GST Rate'' = Some g"
    by (elim exE conjE)
  show ?thesis
    by (simp add: process_file_success(1) [OF found vals] column_errors_def Inr ui_stripped_world)
qed

lemma process_file_new_ref:
  assumes "snd (process_file repr w (Some a) ft) = Inr (Some k)"
  shows "next_ref w \<le> k \<and> k < next_ref (fst (process_file repr w (Some a) ft))"
proof -
  have ret: "process_file repr w (Some a) ft = (fst (process_file repr w (Some a) ft), Inr (Some k))"
    using assms by (simp add: prod_eq_iff)
  from process_file_returns [OF ret] obtain fc d i p t g where
    found: "snd (find_columns col_map a ft w Map.empty) = Inr (Some fc)"
    and vals: "fc ''Date'' = Some d" "fc ''Invoice No'' = Some i" "fc ''Party Name'' = Some p"
      "fc ''Taxable Amount'' = Some t" "fc ''GST Rate'' = Some g"
    by (elim exE conjE)
  from assms show ?thesis
    by (simp add: process_file_success(1) [OF found vals])
qed

lemma process_file_frames_other:
  assumes "b < next_ref w" and "b \<noteq> a"
  shows "frames (fst (process_file repr w (Some a) ft)) b = frames w b"
proof (cases "str_accepts (frames w a)")
  case True
  from assms show ?thesis
    by (simp add: process_file_frames_old [OF True] frames_stripped_world_other)
next
  case False
  then show ?thesis by (simp add: process_file_refused)
qed

text \<open>What a call of \<^verbatim>\<open>process_file\<close> leaves as it was, whatever its outcome.\<close>

lemma process_file_frame:
  shows "b < next_ref w \<Longrightarrow> Some b \<noteq> d \<Longrightarrow> frames (fst (process_file repr w d ft)) b = frames w b"
    and "next_ref w \<le> next_ref (fst (process_file repr w d ft))"
    and "snd (process_file repr w d ft) = Inr (Some k) \<Longrightarrow>
           next_ref w \<le> k \<and> k < next_ref (fst (process_file repr w d ft))"
proof -
  show "b < next_ref w \<Longrightarrow> Some b \<noteq> d \<Longrightarrow> frames (fst (process_file repr w d ft)) b = frames w b"
    by (cases d) (simp_all add: process_file_frames_other, simp add: process_file_def)
  show "next_ref w \<le> next_ref (fst (process_file repr w d ft))"
    by (cases d) (simp_all add: process_file_next_ref, simp add: process_file_def)
  show "snd (process_file repr w d ft) = Inr (Some k) \<Longrightarrow>
           next_ref w \<le> k \<and> k < next_ref (fst (process_file repr w d ft))"
    by (cases d) (simp_all add: process_file_new_ref, simp add: process_file_def)
qed

text \<open>What a call of \<^verbatim>\<open>process_file\<close> shows and returns for a table that \<^verbatim>\<open>.str\<close> accepts.\<close>

lemma process_file_effect:
  assumes acc: "case d of None \<Rightarrow> True | Some a \<Rightarrow> str_accepts (frames w a)"
  shows "ui (fst (process_file repr w d ft))
           = ui w @ (case d of None \<Rightarrow> [] | Some a \<Rightarrow> column_errors ft (frames w a))"
    and "snd (process_file repr w d ft) = Inr r \<Longrightarrow>
           map_option (frames (fst (process_file repr w d ft))) r
             = (case d of None \<Rightarrow> None | Some a \<Rightarrow> table_value repr (frames w a))"
    and "\<exists>r. snd (process_file repr w d ft) = Inr r"
proof -
  show "ui (fst (process_file repr w d ft))
           = ui w @ (case d of None \<Rightarrow> [] | Some a \<Rightarrow> column_errors ft (frames w a))"
  proof (cases d)
    case None
    then show ?thesis by (simp add: process_file_def)
  next
    case (Some a)
    with acc have "str_accepts (frames w a)" by simp
    then show ?thesis unfolding Some by (simp add: process_file_ui)
  qed
  show "snd (process_file repr w d ft) = Inr r \<Longrightarrow>
           map_option (frames (fst (process_file repr w d ft))) r
             = (case d of None \<Rightarrow> None | Some a \<Rightarrow> table_value repr (frames w a))"
  proof (cases d)
    case None
    assume "snd (process_file repr w d ft) = Inr r"
    with None show ?thesis by (simp add: process_file_def)
  next
    case (Some a)
    assume r: "snd (process_file repr w d ft) = Inr r"
    from acc Some have "str_accepts (frames w a)" by simp
    from process_file_result [OF this, of repr ft] r show ?thesis
      unfolding Some by (simp add: table_value_def split: sum.splits)
  qed
  show "\<exists>r. snd (process_file repr w d ft) = Inr r"
  proof (cases d)
    case None
    then show ?thesis by (simp add: process_file_def)
  next
    case (Some a)
    with acc have "str_accepts (frames w a)" by simp
    then show ?thesis unfolding Some by (rule process_file_returns_when_accepted)
  qed
qed

lemma accepted_frame:
  assumes "accepted pd f" and "map_option (frames w) d = loaded pd f"
  shows "case d of None \<Rightarrow> True | Some a \<Rightarrow> str_accepts (frames w a)"
proof (cases d)
  case None
  then show ?thesis by simp
next
  case (Some a)
  with assms(2) have "loaded pd f = Some (frames w a)" by simp
  with assms(1) show ?thesis by (simp add: accepted_def Some)
qed

lemma case_map_option:
  "(case d of None \<Rightarrow> x | Some a \<Rightarrow> f (h a)) = (case map_option h d of None \<Rightarrow> x | Some v \<Rightarrow> f v)"
  by (cases d) simp_all

text \<open>
  The two calls of \<^verbatim>\<open>load_data\<close>: what they show, and that each table loaded is in the
  store, at a reference of its own, when \<^verbatim>\<open>process_file\<close> is called.
\<close>

lemma two_loads:
  assumes l1: "load_data pd w (Some pf) = (w1, dp)" and l2: "load_data pd w1 (Some sf) = (w2, ds)"
  shows "ui w2 = ui w @ read_errors pd pf @ read_errors pd sf"
    and "map_option (frames w2) dp = loaded pd pf"
    and "map_option (frames w2) ds = loaded pd sf"
    and "ds = Some b \<Longrightarrow> b < next_ref w2 \<and> Some b \<noteq> dp"
    and "dp = Some a \<Longrightarrow> a < next_ref w2"
proof -
  from l1 have w1: "w1 = fst (load_data pd w (Some pf))" and dp: "dp = snd (load_data pd w (Some pf))"
    by simp_all
  from l2 have w2: "w2 = fst (load_data pd w1 (Some sf))" and ds: "ds = snd (load_data pd w1 (Some sf))"
    by simp_all
  note e1 = load_data_effect [where pd = pd and w = w and f = pf, folded w1 dp]
  note e2 = load_data_effect [where pd = pd and w = w1 and f = sf, folded w2 ds]
  show "ui w2 = ui w @ read_errors pd pf @ read_errors pd sf"
    by (simp add: e1(1) e2(1))
  show "map_option (frames w2) dp = loaded pd pf"
  proof (cases dp)
    case None
    with e1(2) show ?thesis by simp
  next
    case (Some a)
    from e1(5) [OF Some] have "a < next_ref w1" by simp
    from e2(3) [OF this] e1(2) show ?thesis by (simp add: Some)
  qed
  show "map_option (frames w2) ds = loaded pd sf"
    by (rule e2(2))
  show "ds = Some b \<Longrightarrow> b < next_ref w2 \<and> Some b \<noteq> dp"
  proof -
    assume b: "ds = Some b"
    from e2(5) [OF b] have lt: "next_ref w1 \<le> b" "b < next_ref w2" by simp_all
    have "Some b \<noteq> dp"
    proof
      assume "Some b = dp"
      from e1(5) [OF this [symmetric]] lt(1) show False by simp
    qed
    with lt(2) show ?thesis by simp
  qed
  show "dp = Some a \<Longrightarrow> a < next_ref w2"
  proof -
    assume "dp = Some a"
    from e1(5) [OF this] e2(4) show ?thesis by simp
  qed
qed

text \<open>
  The button where \<^verbatim>\<open>.str\<close> accepts the column index of each table loaded: the run ends
  without exception, and the page shows the errors of the two loads, the errors of the
  two calls of \<^verbatim>\<open>process_file\<close> and the closing part.
\<close>

lemma button_pressed_both:
  assumes ap: "accepted pd pf" and as: "accepted pd sf"
  shows "snd (button_pressed pd repr w (Some pf) (Some sf)) = Inr ()
   \<and> ui (fst (button_pressed pd repr w (Some pf) (Some sf)))
       = ui w @ read_errors pd pf @ read_errors pd sf
         @ (case loaded pd pf of None \<Rightarrow> [] | Some df \<Rightarrow> column_errors ''Purchase'' df)
         @ (case loaded pd sf of None \<Rightarrow> [] | Some df \<Rightarrow> column_errors ''Sales'' df)
         @ closing (case loaded pd pf of None \<Rightarrow> None | Some df \<Rightarrow> table_value repr df)
                   (case loaded pd sf of None \<Rightarrow> None | Some df \<Rightarrow> table_value repr df)"
proof -
  define w1 where "w1 = fst (load_data pd w (Some pf))"
  define dp where "dp = snd (load_data pd w (Some pf))"
  define w2 where "w2 = fst (load_data pd w1 (Some sf))"
  define ds where "ds = snd (load_data pd w1 (Some sf))"
  define w3 where "w3 = fst (process_file repr w2 dp ''Purchase'')"
  define w4 where "w4 = fst (process_file repr w3 ds ''Sales'')"
  have l1: "load_data pd w (Some pf) = (w1, dp)" by (simp add: w1_def dp_def)
  have l2: "load_data pd w1 (Some sf) = (w2, ds)" by (simp add: w2_def ds_def)
  note ld = two_loads [OF l1 l2]
  note f3 = process_file_frame [where repr = repr and w = w2 and d = dp and ft = "''Purchase''",
      folded w3_def]
  note f4 = process_file_frame [where repr = repr and w = w3 and d = ds and ft = "''Sales''",
      folded w4_def]
  \<comment> \<open>the Purchase table as loaded is still there when it is processed\<close>
  note vp = ld(2)
  have accp: "case dp of None \<Rightarrow> True | Some a \<Rightarrow> str_accepts (frames w2 a)"
    using ap vp by (rule accepted_frame)
  \<comment> \<open>so is the Sales table, after the Purchase table was processed\<close>
  have vs: "map_option (frames w3) ds = loaded pd sf"
  proof (cases ds)
    case None
    with ld(3) show ?thesis by simp
  next
    case (Some b)
    from ld(4) [OF Some] have "b < next_ref w2" "Some b \<noteq> dp" by simp_all
    from f3(1) [OF this] ld(3) show ?thesis by (simp add: Some)
  qed
  have accs: "case ds of None \<Rightarrow> True | Some a \<Rightarrow> str_accepts (frames w3 a)"
    using as vs by (rule accepted_frame)
  note e3 = process_file_effect [OF accp, where repr = repr and ft = "''Purchase''", folded w3_def]
  note e4 = process_file_effect [OF accs, where repr = repr and ft = "''Sales''", folded w4_def]
  from e3(3) obtain rp where rp: "snd (process_file repr w2 dp ''Purchase'') = Inr rp" by (elim exE)
  from e4(3) obtain rs where rs: "snd (process_file repr w3 ds ''Sales'') = Inr rs" by (elim exE)
  have p1: "process_file repr w2 dp ''Purchase'' = (w3, Inr rp)" by (simp add: w3_def rp prod_eq_iff)
  have p2: "process_file repr w3 ds ''Sales'' = (w4, Inr rs)" by (simp add: w4_def rs prod_eq_iff)
  have tp3: "map_option (frames w3) rp = (case loaded pd pf of None \<Rightarrow> None | Some df \<Rightarrow> table_value repr df)"
    using e3(2) [OF rp] by (simp add: case_map_option [where d = dp and h = "frames w2"] vp)
  have ts: "map_option (frames w4) rs = (case loaded pd sf of None \<Rightarrow> None | Some df \<Rightarrow> table_value repr df)"
    using e4(2) [OF rs] by (simp add: case_map_option [where d = ds and h = "frames w3"] vs)
  have tp: "map_option (frames w4) rp = (case loaded pd pf of None \<Rightarrow> None | Some df \<Rightarrow> table_value repr df)"
  proof (cases rp)
    case None
    with tp3 show ?thesis by simp
  next
    case (Some k)
    from f3(3) [OF rp [unfolded Some]] have k: "next_ref w2 \<le> k" "k < next_ref w3" by simp_all
    have "Some k \<noteq> ds"
    proof
      assume "Some k = ds"
      from ld(4) [OF this [symmetric]] k(1) show False by simp
    qed
    from f4(1) [OF k(2) this] tp3 show ?thesis by (simp add: Some)
  qed
  have ui4: "ui w4 = ui w @ read_errors pd pf @ read_errors pd sf
         @ (case loaded pd pf of None \<Rightarrow> [] | Some df \<Rightarrow> column_errors ''Purchase'' df)
         @ (case loaded pd sf of None \<Rightarrow> [] | Some df \<Rightarrow> column_errors ''Sales'' df)"
    by (simp add: e4(1) e3(1) ld(1) case_map_option [where d = dp and h = "frames w2"] vp
        case_map_option [where d = ds and h = "frames w3"] vs)
  have run: "button_pressed pd repr w (Some pf) (Some sf)
     = (w4\<lparr>ui := ui w4 @ closing (map_option (frames w4) rp) (map_option (frames w4) rs)\<rparr>, Inr ())"
    by (simp add: button_pressed_def l1 l2 p1 p2 closing_def to_excel_def st_error_def case_prod_unfold
        split: option.splits)
  show ?thesis
    by (simp add: run ui4 tp ts)
qed

text \<open>
  The button where \<^verbatim>\<open>.str\<close> does not accept the column index of the Purchase table: the
  run ends with the exception of \<^verbatim>\<open>process_file\<close>, the Sales table is not processed, and
  the page shows the errors of the two loads and nothing else.
\<close>

lemma button_pressed_purchase_refused:
  assumes "\<not> accepted pd pf"
  shows "snd (button_pressed pd repr w (Some pf) (Some sf))
           = Inl (AttributeError ''Can only use .str accessor with string values!'')
   \<and> ui (fst (button_pressed pd repr w (Some pf) (Some sf)))
       = ui w @ read_errors pd pf @ read_errors pd sf"
proof -
  define w1 where "w1 = fst (load_data pd w (Some pf))"
  define dp where "dp = snd (load_data pd w (Some pf))"
  define w2 where "w2 = fst (load_data pd w1 (Some sf))"
  define ds where "ds = snd (load_data pd w1 (Some sf))"
  have l1: "load_data pd w (Some pf) = (w1, dp)" by (simp add: w1_def dp_def)
  have l2: "load_data pd w1 (Some sf) = (w2, ds)" by (simp add: w2_def ds_def)
  note ld = two_loads [OF l1 l2]
  from assms obtain df where df: "loaded pd pf = Some df" and no: "\<not> str_accepts df"
    by (auto simp: accepted_def split: option.splits)
  from ld(2) df obtain a where a: "dp = Some a" and fa: "frames w2 a = df"
    by (cases dp) simp_all
  from no fa have "\<not> str_accepts (frames w2 a)" by simp
  from process_file_refused [OF this, of repr "''Purchase''"]
  have run: "button_pressed pd repr w (Some pf) (Some sf)
     = (w2, Inl (AttributeError ''Can only use .str accessor with string values!''))"
    by (simp add: button_pressed_def l1 l2 a)
  show ?thesis by (simp add: run ld(1))
qed

text \<open>
  The button where \<^verbatim>\<open>.str\<close> accepts the column index of the Purchase table and not that of
  the Sales table: the run ends with the exception, after the errors of the two loads and
  of the Purchase table.
\<close>

lemma button_pressed_sales_refused:
  assumes ap: "accepted pd pf" and "\<not> accepted pd sf"
  shows "snd (button_pressed pd repr w (Some pf) (Some sf))
           = Inl (AttributeError ''Can only use .str accessor with string values!'')
   \<and> ui (fst (button_pressed pd repr w (Some pf) (Some sf)))
       = ui w @ read_errors pd pf @ read_errors pd sf
         @ (case loaded pd pf of None \<Rightarrow> [] | Some df \<Rightarrow> column_errors ''Purchase'' df)"
proof -
  define w1 where "w1 = fst (load_data pd w (Some pf))"
  define dp where "dp = snd (load_data pd w (Some pf))"
  define w2 where "w2 = fst (load_data pd w1 (Some sf))"
  define ds where "ds = snd (load_data pd w1 (Some sf))"
  define w3 where "w3 = fst (process_file repr w2 dp ''Purchase'')"
  have l1: "load_data pd w (Some pf) = (w1, dp)" by (simp add: w1_def dp_def)
  have l2: "load_data pd w1 (Some sf) = (w2, ds)" by (simp add: w2_def ds_def)
  note ld = two_loads [OF l1 l2]
  note f3 = process_file_frame [where repr = repr and w = w2 and d = dp and ft = "''Purchase''",
      folded w3_def]
  have accp: "case dp of None \<Rightarrow> True | Some a \<Rightarrow> str_accepts (frames w2 a)"
    using ap ld(2) by (rule accepted_frame)
  note e3 = process_file_effect [OF accp, where repr = repr and ft = "''Purchase''", folded w3_def]
  from e3(3) obtain rp where rp: "snd (process_file repr w2 dp ''Purchase'') = Inr rp" by (elim exE)
  have p1: "process_file repr w2 dp ''Purchase'' = (w3, Inr rp)" by (simp add: w3_def rp prod_eq_iff)
  from assms(2) obtain df where df: "loaded pd sf = Some df" and no: "\<not> str_accepts df"
    by (auto simp: accepted_def split: option.splits)
  from ld(3) df obtain b where b: "ds = Some b" and fb: "frames w2 b = df"
    by (cases ds) simp_all
  from ld(4) [OF b] have "b < next_ref w2" "Some b \<noteq> dp" by simp_all
  from f3(1) [OF this] fb no have "\<not> str_accepts (frames w3 b)" by simp
  from process_file_refused [OF this, of repr "''Sales''"]
  have run: "button_pressed pd repr w (Some pf) (Some sf)
     = (w3, Inl (AttributeError ''Can only use .str accessor with string values!''))"
    by (simp add: button_pressed_def l1 l2 p1 b)
  show ?thesis
    by (simp add: run e3(1) ld(1) case_map_option [where d = dp and h = "frames w2"] ld(2))
qed

lemma said_append: "ui w' = ui w @ es \<Longrightarrow> said w w' = es"
  by (simp add: said_def)

lemma load_said: "said w (fst (load_data pd w (Some f))) = read_errors pd f"
  by (rule said_append) (rule load_data_effect(1))

lemma loaded_frame:
  assumes "load_data pd w (Some f) = (w1, d)"
  shows "case d of None \<Rightarrow> loaded pd f = None | Some a \<Rightarrow> loaded pd f = Some (frames w1 a)"
  using load_data_effect(2) [of pd w f] assms by (cases d) auto

lemma process_said:
  assumes "accepted pd f"
  shows "(case load_data pd w (Some f) of (w1, df) \<Rightarrow> said w1 (fst (process_file repr w1 df ft)))
     = (case loaded pd f of None \<Rightarrow> [] | Some df \<Rightarrow> column_errors ft df)"
proof -
  define w1 where "w1 = fst (load_data pd w (Some f))"
  define d where "d = snd (load_data pd w (Some f))"
  have l: "load_data pd w (Some f) = (w1, d)" by (simp add: w1_def d_def)
  have acc: "case d of None \<Rightarrow> True | Some a \<Rightarrow> str_accepts (frames w1 a)"
    using assms load_data_effect(2) [of pd w f] unfolding w1_def d_def by (rule accepted_frame)
  have "said w1 (fst (process_file repr w1 d ft))
          = (case d of None \<Rightarrow> [] | Some a \<Rightarrow> column_errors ft (frames w1 a))"
    by (rule said_append) (rule process_file_effect(1) [OF acc])
  also have "\<dots> = (case loaded pd f of None \<Rightarrow> [] | Some df \<Rightarrow> column_errors ft df)"
    unfolding case_map_option [where d = d and h = "frames w1"]
    by (simp add: w1_def d_def load_data_effect(2))
  finally show ?thesis
    by (simp add: w1_def d_def case_prod_unfold)
qed

lemma table_of_value:
  assumes "accepted pd f"
  shows "table_of pd repr w f ft = (case loaded pd f of None \<Rightarrow> None | Some df \<Rightarrow> table_value repr df)"
proof -
  define w1 where "w1 = fst (load_data pd w (Some f))"
  define d where "d = snd (load_data pd w (Some f))"
  have l: "load_data pd w (Some f) = (w1, d)" by (simp add: w1_def d_def)
  have acc: "case d of None \<Rightarrow> True | Some a \<Rightarrow> str_accepts (frames w1 a)"
    using assms load_data_effect(2) [of pd w f] unfolding w1_def d_def by (rule accepted_frame)
  from process_file_effect(3) [OF acc, where repr = repr and ft = ft]
  obtain r where r: "snd (process_file repr w1 d ft) = Inr r"
    by (elim exE)
  have "table_of pd repr w f ft = map_option (frames (fst (process_file repr w1 d ft))) r"
    using r by (cases r) (simp_all add: table_of_def run_file_def w1_def d_def case_prod_unfold)
  also have "\<dots> = (case d of None \<Rightarrow> None | Some a \<Rightarrow> table_value repr (frames w1 a))"
    by (rule process_file_effect(2) [OF acc r])
  also have "\<dots> = (case loaded pd f of None \<Rightarrow> None | Some df \<Rightarrow> table_value repr df)"
    unfolding case_map_option [where d = d and h = "frames w1"]
    by (simp add: w1_def d_def load_data_effect(2))
  finally show ?thesis .
qed

lemma table_of_refused:
  assumes "\<not> accepted pd f"
  shows "table_of pd repr w f ft = None"
proof -
  define w1 where "w1 = fst (load_data pd w (Some f))"
  define d where "d = snd (load_data pd w (Some f))"
  have l: "load_data pd w (Some f) = (w1, d)" by (simp add: w1_def d_def)
  from assms obtain df where df: "loaded pd f = Some df" and no: "\<not> str_accepts df"
    by (auto simp: accepted_def split: option.splits)
  from loaded_frame [OF l] df obtain a where a: "d = Some a" and "frames w1 a = df"
    by (cases d) simp_all
  with no have "\<not> str_accepts (frames w1 a)" by simp
  from process_file_refused [OF this, of repr ft] show ?thesis
    by (simp add: table_of_def run_file_def l a)
qed

text \<open>
  Where \<^verbatim>\<open>.str\<close> accepts the column index of each table loaded, both files are loaded and
  processed, and what the page shows is what each of the four calls shows on its own,
  followed by the closing part.
\<close>

lemma both_files_run:
  assumes "accepted pd pf" and "accepted pd sf"
  shows "snd (button_pressed pd repr w (Some pf) (Some sf)) = Inr ()
   \<and> said w (fst (button_pressed pd repr w (Some pf) (Some sf)))
       = said w (fst (load_data pd w (Some pf)))
         @ said w (fst (load_data pd w (Some sf)))
         @ (case load_data pd w (Some pf) of (w1, df) \<Rightarrow> said w1 (fst (process_file repr w1 df ''Purchase'')))
         @ (case load_data pd w (Some sf) of (w1, df) \<Rightarrow> said w1 (fst (process_file repr w1 df ''Sales'')))
         @ closing (table_of pd repr w pf ''Purchase'') (table_of pd repr w sf ''Sales'')"
  unfolding load_said process_said [OF assms(1)] process_said [OF assms(2)]
    table_of_value [OF assms(1)] table_of_value [OF assms(2)]
  using button_pressed_both [OF assms, of repr w] by (simp add: said_def)

lemma read_errors_no_download: "StDownloadButton sheets n m \<notin> set (read_errors pd f)"
  by (simp add: read_errors_def split: option.splits sum.splits)

lemma column_errors_no_download: "StDownloadButton sheets n m \<notin> set (column_errors ft df)"
  by (simp add: column_errors_def split: sum.splits)

text \<open>
  Whatever the two files are, a download is offered exactly when both files give a table,
  and every download offered holds the two sheets.
\<close>

lemma download_iff_both_tables:
  "(\<exists>sheets n m. StDownloadButton sheets n m
        \<in> set (said w (fst (button_pressed pd repr w (Some pf) (Some sf)))))
     \<longleftrightarrow> table_of pd repr w pf ''Purchase'' \<noteq> None \<and> table_of pd repr w sf ''Sales'' \<noteq> None"
  and "list_all (\<lambda>e. case e of
           StDownloadButton sheets n m \<Rightarrow> map sheet_name sheets = [''Purchase Data'', ''Sales Data'']
         | _ \<Rightarrow> True)
       (said w (fst (button_pressed pd repr w (Some pf) (Some sf))))"
proof -
  consider (both) "accepted pd pf" "accepted pd sf"
    | (purchase) "\<not> accepted pd pf"
    | (sales) "accepted pd pf" "\<not> accepted pd sf"
    by blast
  then have "((\<exists>sheets n m. StDownloadButton sheets n m
        \<in> set (said w (fst (button_pressed pd repr w (Some pf) (Some sf)))))
     \<longleftrightarrow> table_of pd repr w pf ''Purchase'' \<noteq> None \<and> table_of pd repr w sf ''Sales'' \<noteq> None)
    \<and> list_all (\<lambda>e. case e of
           StDownloadButton sheets n m \<Rightarrow> map sheet_name sheets = [''Purchase Data'', ''Sales Data'']
         | _ \<Rightarrow> True)
       (said w (fst (button_pressed pd repr w (Some pf) (Some sf))))"
  proof cases
    case both
    have said: "said w (fst (button_pressed pd repr w (Some pf) (Some sf)))
       = read_errors pd pf @ read_errors pd sf
         @ (case loaded pd pf of None \<Rightarrow> [] | Some df \<Rightarrow> column_errors ''Purchase'' df)
         @ (case loaded pd sf of None \<Rightarrow> [] | Some df \<Rightarrow> column_errors ''Sales'' df)
         @ closing (table_of pd repr w pf ''Purchase'') (table_of pd repr w sf ''Sales'')"
      unfolding table_of_value [OF both(1)] table_of_value [OF both(2)]
      using button_pressed_both [OF both, of repr w] by (simp add: said_def)
    have 1: "(\<exists>sheets n m. StDownloadButton sheets n m
        \<in> set (said w (fst (button_pressed pd repr w (Some pf) (Some sf)))))
     \<longleftrightarrow> table_of pd repr w pf ''Purchase'' \<noteq> None \<and> table_of pd repr w sf ''Sales'' \<noteq> None"
      unfolding said
      by (auto simp: read_errors_no_download column_errors_no_download closing_def
          split: option.splits)
    have 2: "list_all (\<lambda>e. case e of
           StDownloadButton sheets n m \<Rightarrow> map sheet_name sheets = [''Purchase Data'', ''Sales Data'']
         | _ \<Rightarrow> True)
       (said w (fst (button_pressed pd repr w (Some pf) (Some sf))))"
      unfolding said
      by (auto simp: list_all_iff read_errors_def column_errors_def closing_def
          split: option.splits sum.splits)
    from 1 2 show ?thesis ..
  next
    case purchase
    have said: "said w (fst (button_pressed pd repr w (Some pf) (Some sf)))
       = read_errors pd pf @ read_errors pd sf"
      using button_pressed_purchase_refused [OF purchase, of repr w sf] by (simp add: said_def)
    show ?thesis
      unfolding said table_of_refused [OF purchase]
      by (auto simp: read_errors_no_download list_all_iff read_errors_def
          split: option.splits sum.splits)
  next
    case sales
    have said: "said w (fst (button_pressed pd repr w (Some pf) (Some sf)))
       = read_errors pd pf @ read_errors pd sf
         @ (case loaded pd pf of None \<Rightarrow> [] | Some df \<Rightarrow> column_errors ''Purchase'' df)"
      using button_pressed_sales_refused [OF sales, of repr w] by (simp add: said_def)
    show ?thesis
      unfolding said table_of_refused [OF sales(2)]
      by (auto simp: list_all_iff read_errors_def column_errors_def
          split: option.splits sum.splits)
  qed
  then show "(\<exists>sheets n m. StDownloadButton sheets n m
        \<in> set (said w (fst (button_pressed pd repr w (Some pf) (Some sf)))))
     \<longleftrightarrow> table_of pd repr w pf ''Purchase'' \<noteq> None \<and> table_of pd repr w sf ''Sales'' \<noteq> None"
    and "list_all (\<lambda>e. case e of
           StDownloadButton sheets n m \<Rightarrow> map sheet_name sheets = [''Purchase Data'', ''Sales Data'']
         | _ \<Rightarrow> True)
       (said w (fst (button_pressed pd repr w (Some pf) (Some sf))))"
    by simp_all
qed

text \<open>
  C6. The Purchase file is named \<open>DATA.CSV\<close>, the Sales file \<open>sales.csv\<close> holds a table with
  every column. The Purchase side fails in \<^verbatim>\<open>load_data\<close> without a message; all the page
  shows is the closing error, which names neither file, and no download is offered.
\<close>

theorem failure_without_its_own_report:
  "snd (button_pressed example_readers (\<lambda>_. ''x'') empty_world
      (Some \<lparr>name = ''DATA.CSV'', content = ()\<rparr>) (Some \<lparr>name = ''sales.csv'', content = ()\<rparr>)) = Inr ()
   \<and> ui (fst (button_pressed example_readers (\<lambda>_. ''x'') empty_world
      (Some \<lparr>name = ''DATA.CSV'', content = ()\<rparr>) (Some \<lparr>name = ''sales.csv'', content = ()\<rparr>)))
       = [StError ''Processing failed. Please review the errors above.'']
   \<and> load_data example_readers empty_world (Some \<lparr>name = ''DATA.CSV'', content = ()\<rparr>)
       = (empty_world, None)
   \<and> snd (process_file (\<lambda>_. ''x'')
           (fst (load_data example_readers empty_world (Some \<lparr>name = ''sales.csv'', content = ()\<rparr>)))
           (snd (load_data example_readers empty_world (Some \<lparr>name = ''sales.csv'', content = ()\<rparr>)))
           ''Sales'') = Inr (Some 2)"
  by (simp add: button_pressed_def load_data_def endswith_def example_readers_def empty_world_def
      example_frame_def eval_simps str_int_def str_nat.simps upt_rec)

end
